theory Spec2Isabelle
  imports Main "HOL-Library.Extended_Nat" "HOL-Library.Sublist"
begin

section \<open>Data model of the test model (packages/xstate-test/src/index.ts)\<close>

text \<open>
  The TypeScript class \<^verbatim>\<open>TestModel\<close> compiles paths of a state machine into test plans,
  runs them against a test context and counts which state nodes were asserted.

  Conventions of the embedding.
  \<^item> A JavaScript function value is a reference \<open>fn_ref\<close>; applying it is a field of the
    environment \<open>env\<close> (\<open>call_test\<close>, \<open>call_exec\<close>, \<open>call_description\<close>). A state
    carries its test functions in \<open>meta\<close> and those functions take the state as an argument,
    so the functions cannot be stored in the state as HOL functions.
  \<^item> A plain object is the list of its own entries in the order \<^verbatim>\<open>Object.keys\<close> gives them,
    with distinct keys; a \<^verbatim>\<open>Map\<close> is the list of its entries in insertion order.
    Where the source reads \<^verbatim>\<open>obj[k]\<close> for a key that need not be the object's own, the
    read also finds the properties inherited from \<^verbatim>\<open>Object.prototype\<close> (\<open>inherited\<close>).
  \<^item> \<^verbatim>\<open>undefined\<close> and \<^verbatim>\<open>null\<close> are \<open>None\<close>.
  \<^item> A thrown value, and the value a promise rejects with, is an \<^verbatim>\<open>Error\<close> object (a
    name and a message, a string) or a value that is not an object (\<open>NonObject\<close>).
    The module is an ES module, so its code is strict: writing a property of a primitive
    throws a TypeError.
  \<^item> An \<^verbatim>\<open>async\<close> function that awaits each call in turn is the sequential composition
    of those calls over the explicit state: the model instance (its coverage counters) and
    the world (the system under test, the console and the record of calls made to the
    caller's functions). A caller's function is taken to settle: it resolves (\<open>None\<close>)
    or rejects (\<open>Some e\<close>).
  \<^item> Counts and weights are natural numbers; \<^verbatim>\<open>Infinity\<close> is \<open>\<infinity>\<close> of \<open>enat\<close>.
\<close>

type_synonym fn_ref = nat

datatype json =
    JNull
  | JBool bool
  | JNum int
  | JStr string
  | JArr "json list"
  | JObj "(string \<times> json) list"

datatype primitive = Undefined | Null | PBool bool | PNum int | PStr string

datatype Error =
    Error (err_name: string) (message: string)
  | NonObject primitive

text \<open>The truth value JavaScript gives a value held in an error field.\<close>

fun truthy :: "Error option \<Rightarrow> bool" where
  "truthy None = False"
| "truthy (Some (Error n m)) = True"
| "truthy (Some (NonObject Undefined)) = False"
| "truthy (Some (NonObject Null)) = False"
| "truthy (Some (NonObject (PBool b))) = b"
| "truthy (Some (NonObject (PNum n))) = (n \<noteq> 0)"
| "truthy (Some (NonObject (PStr s))) = (s \<noteq> [])"

record StateNode =
  node_id :: string
  node_type :: string

datatype Description = DescriptionString string | DescriptionFn fn_ref

record TestMeta =
  test :: "fn_ref option"
  skip :: "bool option"
  description :: "Description option"

record State =
  state_value :: json
  state_context :: "json option"
  meta :: "(string \<times> TestMeta) list"
  configuration :: "StateNode list"

record EventObject =
  event_type :: string
  props :: "(string \<times> json) list"

record EventCase =
  case_type :: "string option"
  case_props :: "(string \<times> json) list"

datatype EventConfig =
    BareExecutor fn_ref
  | Config (exec: "fn_ref option") (cases: "EventCase list option")

text \<open>
  What \<^verbatim>\<open>getEventExecutor\<close> can return: a function of the caller's configuration, or a
  function that the configuration object inherits from \<^verbatim>\<open>Object.prototype\<close>, known by
  its property name.
\<close>

datatype Executor = CallerFunction fn_ref | InheritedFunction string

record Step =
  step_state :: State
  step_event :: EventObject

record StatePath =
  path_state :: State
  path_steps :: "Step list"
  path_weight :: nat

record StatePlan =
  plan_state :: State
  plan_paths :: "StatePath list"

type_synonym StatePathsMap = "(string \<times> StatePlan) list"

record TestStep = Step +
  step_description :: string

record TestPath =
  tpath_state :: State
  tpath_steps :: "TestStep list"
  tpath_weight :: nat
  tpath_description :: string

record TestPlan =
  tplan_state :: State
  tplan_paths :: "TestPath list"
  tplan_description :: string

record TestStepResult =
  step :: TestStep
  step_state_error :: "Error option"
  step_event_error :: "Error option"

record TestPathResult =
  result_steps :: "TestStepResult list"
  result_state_error :: "Error option"

record TestModelCoverage =
  stateNodes :: "(string \<times> nat) list"
  transitions :: "(string \<times> nat) list"

record TestModelOptions =
  events :: "(string \<times> EventConfig) list"

record PartialOptions =
  partial_events :: "(string \<times> EventConfig) list option"

record 'm TestModel =
  machine :: 'm
  options :: TestModelOptions
  coverage :: TestModelCoverage

record CoverageOptions =
  coverage_filter :: "(StateNode \<Rightarrow> bool) option"

datatype StateTarget = TargetValue json | TargetPredicate "State \<Rightarrow> bool"

subsection \<open>The world outside the model instance\<close>

text \<open>
  A call of one of the caller's functions: the function, its arguments, and how its promise
  settled (\<open>None\<close>: resolved, \<open>Some e\<close>: rejected with \<open>e\<close>).
\<close>

datatype 'tc Call =
    TestCall (callee: fn_ref) 'tc State (outcome: "Error option")
  | ExecCall (callee: fn_ref) 'tc EventObject (outcome: "Error option")
  | InheritedCall string 'tc EventObject (outcome: "Error option")

record ('tc, 'w) World =
  sut :: 'w
  console :: "string list"
  calls :: "'tc Call list"

text \<open>
  What the module imports and does not define: the graph search of \<^verbatim>\<open>@xstate/graph\<close>,
  \<^verbatim>\<open>State.matches\<close>, \<^verbatim>\<open>JSON.stringify\<close>, \<^verbatim>\<open>slimChalk\<close>, and the application of the
  caller's functions. \<open>getPathFromEvents\<close> may throw (an event sequence the machine cannot
  replay); the other capabilities return what their signatures say. \<open>call_inherited\<close> is
  the application of a function of \<^verbatim>\<open>Object.prototype\<close> as a plain function, that is
  with \<^verbatim>\<open>this\<close> undefined, to a test context and an event: it returns or throws and
  does not touch the system under test.
\<close>

record ('m, 'o, 'tc, 'w) env =
  getStateNodes :: "'m \<Rightarrow> StateNode list"
  getShortestPaths :: "'m \<Rightarrow> EventObject list \<Rightarrow> 'o option \<Rightarrow> StatePathsMap"
  getSimplePaths :: "'m \<Rightarrow> EventObject list \<Rightarrow> 'o option \<Rightarrow> StatePathsMap"
  getPathFromEvents :: "'m \<Rightarrow> EventObject list \<Rightarrow> Error + StatePath"
  matches :: "State \<Rightarrow> json \<Rightarrow> bool"
  JSON_stringify :: "json \<Rightarrow> string"
  slimChalk :: "string \<Rightarrow> string \<Rightarrow> string"
  call_description :: "fn_ref \<Rightarrow> State \<Rightarrow> string"
  call_test :: "fn_ref \<Rightarrow> 'tc \<Rightarrow> State \<Rightarrow> 'w \<Rightarrow> Error option \<times> 'w"
  call_exec :: "fn_ref \<Rightarrow> 'tc \<Rightarrow> EventObject \<Rightarrow> 'w \<Rightarrow> Error option \<times> 'w"
  call_inherited :: "string \<Rightarrow> 'tc \<Rightarrow> EventObject \<Rightarrow> Error option"

subsection \<open>Arrays, objects and maps\<close>

text \<open>\<^verbatim>\<open>Array.prototype.join\<close>.\<close>

fun join :: "string \<Rightarrow> string list \<Rightarrow> string" where
  "join sep [] = []"
| "join sep [x] = x"
| "join sep (x # y # ys) = x @ sep @ join sep (y # ys)"

text \<open>
  \<^verbatim>\<open>map.set(k, v)\<close> and \<^verbatim>\<open>obj[k] = v\<close>: an existing key keeps its place, a new key goes
  last.
\<close>

fun set_entry :: "'k \<Rightarrow> 'v \<Rightarrow> ('k \<times> 'v) list \<Rightarrow> ('k \<times> 'v) list" where
  "set_entry k v [] = [(k, v)]"
| "set_entry k v ((k', v') # kvs) =
     (if k' = k then (k, v) # kvs else (k', v') # set_entry k v kvs)"

text \<open>
  A plain object inherits the properties of \<^verbatim>\<open>Object.prototype\<close>: a read \<^verbatim>\<open>obj[k]\<close> of
  a key the object does not own finds them. All of them are functions but \<^verbatim>\<open>__proto__\<close>,
  which reads as the prototype object itself.
\<close>

definition Object_prototype_functions :: "string list" where
  "Object_prototype_functions =
     [''constructor'', ''__defineGetter__'', ''__defineSetter__'', ''hasOwnProperty'',
      ''__lookupGetter__'', ''__lookupSetter__'', ''isPrototypeOf'',
      ''propertyIsEnumerable'', ''toString'', ''valueOf'', ''toLocaleString'']"

definition inherited :: "string \<Rightarrow> bool" where
  "inherited k = (k \<in> set Object_prototype_functions \<or> k = ''__proto__'')"

definition event_json :: "EventObject \<Rightarrow> json" where
  "event_json e = JObj ((''type'', JStr (event_type e)) # props e)"

section \<open>Event sampling\<close>

text \<open>
  \<^verbatim>\<open>getEventSamples\<close>: \<^verbatim>\<open>Object.keys(eventsOptions).forEach\<close> pushing onto \<open>result\<close>.
  The spread \<^verbatim>\<open>{type: key, ...sample}\<close> keeps the key as the type unless the case has a
  \<^verbatim>\<open>type\<close> of its own.
\<close>

definition spread_case :: "string \<Rightarrow> EventCase \<Rightarrow> EventObject" where
  "spread_case key sample =
     \<lparr>event_type = (case case_type sample of None \<Rightarrow> key | Some t \<Rightarrow> t),
      props = case_props sample\<rparr>"

fun getEventSamples_forEach ::
  "(string \<times> EventConfig) list \<Rightarrow> EventObject list \<Rightarrow> EventObject list" where
  "getEventSamples_forEach [] result = result"
| "getEventSamples_forEach ((key, BareExecutor f) # rest) result =
     getEventSamples_forEach rest (result @ [\<lparr>event_type = key, props = []\<rparr>])"
| "getEventSamples_forEach ((key, Config ex cs) # rest) result =
     (let events = (case cs of
                      Some samples \<Rightarrow> map (spread_case key) samples
                    | None \<Rightarrow> [\<lparr>event_type = key, props = []\<rparr>])
      in getEventSamples_forEach rest (result @ events))"

definition getEventSamples :: "(string \<times> EventConfig) list \<Rightarrow> EventObject list" where
  "getEventSamples eventsOptions = getEventSamples_forEach eventsOptions []"

text \<open>
  The contract of the sampler in the words of the specification: what one key of the
  configuration contributes.
\<close>

fun samples_of_key :: "string \<Rightarrow> EventConfig \<Rightarrow> EventObject list" where
  "samples_of_key key (BareExecutor f) = [\<lparr>event_type = key, props = []\<rparr>]"
| "samples_of_key key (Config ex (Some samples)) = map (spread_case key) samples"
| "samples_of_key key (Config ex None) = [\<lparr>event_type = key, props = []\<rparr>]"

section \<open>Construction\<close>

text \<open>
  The constructor: \<^verbatim>\<open>this.options = {...TestModel.defaultOptions, ...options}\<close>, and the
  field initialiser gives every instance two new, empty maps. An options object is taken
  to own the key \<^verbatim>\<open>events\<close> only with a configuration as its value (not with the value
  \<^verbatim>\<open>undefined\<close>).
\<close>

definition defaultOptions :: TestModelOptions where
  "defaultOptions = \<lparr>events = []\<rparr>"

definition new_TestModel :: "'m \<Rightarrow> PartialOptions option \<Rightarrow> 'm TestModel" where
  "new_TestModel m opts =
     \<lparr>machine = m,
      options =
        (case opts of
           None \<Rightarrow> defaultOptions
         | Some po \<Rightarrow>
             (case partial_events po of
                None \<Rightarrow> defaultOptions
              | Some ev \<Rightarrow> defaultOptions\<lparr>events := ev\<rparr>)),
      coverage = \<lparr>stateNodes = [], transitions = []\<rparr>\<rparr>"

definition createModel :: "'m \<Rightarrow> PartialOptions option \<Rightarrow> 'm TestModel" where
  "createModel m opts = new_TestModel m opts"

definition withEvents :: "'m TestModel \<Rightarrow> (string \<times> EventConfig) list \<Rightarrow> 'm TestModel" where
  "withEvents this eventMap =
     new_TestModel (machine this) (Some \<lparr>partial_events = Some eventMap\<rparr>)"

section \<open>Compiling paths into plans\<close>

abbreviation nl :: string where "nl \<equiv> [CHR 0x0A]"
abbreviation tab :: string where "tab \<equiv> [CHR 0x09]"
abbreviation dquote :: string where "dquote \<equiv> [CHR 0x22]"

text \<open>The arrow of the path description, U+2192, as its UTF-8 bytes.\<close>

abbreviation arrow :: string where "arrow \<equiv> [CHR 0xE2, CHR 0x86, CHR 0x92]"

definition describe_node :: "('m, 'o, 'tc, 'w) env \<Rightarrow> State \<Rightarrow> StateNode \<Rightarrow> string" where
  "describe_node env st sn =
     (case map_of (meta st) (node_id sn) of
        None \<Rightarrow>
          if inherited (node_id sn) then JSON_stringify env (state_value st)
          else dquote @ ''#'' @ node_id sn @ dquote
      | Some m \<Rightarrow>
          (case description m of
             Some (DescriptionFn f) \<Rightarrow> call_description env f st
           | Some (DescriptionString d) \<Rightarrow>
               (if d \<noteq> [] then dquote @ d @ dquote else JSON_stringify env (state_value st))
           | None \<Rightarrow> JSON_stringify env (state_value st)))"

definition getDescription :: "('m, 'o, 'tc, 'w) env \<Rightarrow> State \<Rightarrow> string" where
  "getDescription env st =
     (let contextString =
            (case state_context st of
               None \<Rightarrow> []
             | Some c \<Rightarrow> ''('' @ JSON_stringify env c @ '')'');
          stateStrings =
            map (describe_node env st)
              (filter (\<lambda>sn. node_type sn = ''atomic'' \<or> node_type sn = ''final'')
                 (configuration st))
      in ''state'' @ (if length stateStrings = 1 then [] else ''s'') @ '': '' @
         join '', '' stateStrings @ '' '' @ contextString)"

definition formatEvent :: "('m, 'o, 'tc, 'w) env \<Rightarrow> EventObject \<Rightarrow> string" where
  "formatEvent env e =
     (let propertyString =
            (if props e \<noteq> [] then '' ('' @ JSON_stringify env (JObj (props e)) @ '')'' else [])
      in event_type e @ propertyString)"

definition compile_step :: "('m, 'o, 'tc, 'w) env \<Rightarrow> Step \<Rightarrow> TestStep" where
  "compile_step env s =
     \<lparr>step_state = step_state s, step_event = step_event s,
      step_description = getDescription env (step_state s)\<rparr>"

definition compile_path :: "('m, 'o, 'tc, 'w) env \<Rightarrow> StatePath \<Rightarrow> TestPath" where
  "compile_path env path =
     (let steps = map (compile_step env) (path_steps path);
          eventsString =
            join ('' '' @ arrow @ '' '')
              (map (\<lambda>s. formatEvent env (step_event s)) (path_steps path))
      in \<lparr>tpath_state = path_state path, tpath_steps = steps,
          tpath_weight = path_weight path,
          tpath_description = ''via '' @ eventsString\<rparr>)"

text \<open>
  \<^verbatim>\<open>getTestPlans\<close>. The closures \<^verbatim>\<open>test\<close> and \<^verbatim>\<open>exec\<close> that the source attaches to a
  step, a path and a plan are the functions \<open>step_test\<close>, \<open>step_exec\<close>, \<open>path_test\<close> and
  \<open>plan_test\<close> below, applied to the compiled record.
\<close>

definition getTestPlans :: "('m, 'o, 'tc, 'w) env \<Rightarrow> StatePathsMap \<Rightarrow> TestPlan list" where
  "getTestPlans env statePathsMap =
     map (\<lambda>(key, testPlan).
            \<lparr>tplan_state = plan_state testPlan,
             tplan_paths = map (compile_path env) (plan_paths testPlan),
             tplan_description = ''reaches '' @ getDescription env (plan_state testPlan)\<rparr>)
       statePathsMap"

section \<open>Planning\<close>

definition getShortestPathPlans ::
  "('m, 'o, 'tc, 'w) env \<Rightarrow> 'm TestModel \<Rightarrow> 'o option \<Rightarrow> TestPlan list" where
  "getShortestPathPlans env this opts =
     getTestPlans env
       (getShortestPaths env (machine this) (getEventSamples (events (options this))) opts)"

definition getSimplePathPlans ::
  "('m, 'o, 'tc, 'w) env \<Rightarrow> 'm TestModel \<Rightarrow> 'o option \<Rightarrow> TestPlan list" where
  "getSimplePathPlans env this opts =
     getTestPlans env
       (getSimplePaths env (machine this) (getEventSamples (events (options this))) opts)"

definition filterPathsTo ::
  "('m, 'o, 'tc, 'w) env \<Rightarrow> StateTarget \<Rightarrow> TestPlan list \<Rightarrow> TestPlan list" where
  "filterPathsTo env stateValue testPlans =
     (let predicate =
            (case stateValue of
               TargetPredicate f \<Rightarrow> (\<lambda>plan. f (tplan_state plan))
             | TargetValue v \<Rightarrow> (\<lambda>plan. matches env (tplan_state plan) v))
      in filter predicate testPlans)"

text \<open>
  The loop of \<^verbatim>\<open>getShortestPathPlansTo\<close>. \<^verbatim>\<open>plan.paths[0].weight\<close> on a plan with no
  path reads a property of \<^verbatim>\<open>undefined\<close>, a TypeError.
\<close>

definition undefined_property :: "string \<Rightarrow> Error" where
  "undefined_property p =
     Error ''TypeError'' (''Cannot read properties of undefined (reading '' @ p @ '')'')"

fun shortestPlans_loop ::
  "TestPlan list \<Rightarrow> enat \<Rightarrow> TestPlan list \<Rightarrow> Error + TestPlan list" where
  "shortestPlans_loop [] minWeight shortestPlans = Inr shortestPlans"
| "shortestPlans_loop (plan # plans) minWeight shortestPlans =
     (case tplan_paths plan of
        [] \<Rightarrow> Inl (undefined_property ''weight'')
      | path0 # _ \<Rightarrow>
          (let currWeight = enat (tpath_weight path0)
           in if currWeight < minWeight then shortestPlans_loop plans currWeight [plan]
              else if currWeight = minWeight
                then shortestPlans_loop plans minWeight (shortestPlans @ [plan])
              else shortestPlans_loop plans minWeight shortestPlans))"

definition getShortestPathPlansTo ::
  "('m, 'o, 'tc, 'w) env \<Rightarrow> 'm TestModel \<Rightarrow> StateTarget \<Rightarrow> Error + TestPlan list" where
  "getShortestPathPlansTo env this stateValue =
     (let plans = filterPathsTo env stateValue (getShortestPathPlans env this None)
      in shortestPlans_loop plans \<infinity> [])"

definition getSimplePathPlansTo ::
  "('m, 'o, 'tc, 'w) env \<Rightarrow> 'm TestModel \<Rightarrow> StateTarget \<Rightarrow> TestPlan list" where
  "getSimplePathPlansTo env this stateValue =
     filterPathsTo env stateValue (getSimplePathPlans env this None)"

text \<open>
  \<^verbatim>\<open>getPlanFromEvents\<close>. \<^verbatim>\<open>plans[0]\<close> of an empty array would be \<^verbatim>\<open>undefined\<close>, hence
  the option in the result.
\<close>

definition mismatch_message :: "('m, 'o, 'tc, 'w) env \<Rightarrow> json \<Rightarrow> json \<Rightarrow> string" where
  "mismatch_message env actual target =
     ''The last state '' @ JSON_stringify env actual @
     '' does not match the target: '' @ JSON_stringify env target"

definition getPlanFromEvents ::
  "('m, 'o, 'tc, 'w) env \<Rightarrow> 'm TestModel \<Rightarrow> EventObject list \<Rightarrow> json \<Rightarrow>
   Error + TestPlan option" where
  "getPlanFromEvents env this evs target =
     (case getPathFromEvents env (machine this) evs of
        Inl e \<Rightarrow> Inl e
      | Inr path \<Rightarrow>
          if \<not> matches env (path_state path) target
          then Inl (Error ''Error''
                 (mismatch_message env (state_value (path_state path)) target))
          else
            (let plans =
                   getTestPlans env
                     [(JSON_stringify env (state_value (path_state path)),
                       \<lparr>plan_state = path_state path, plan_paths = [path]\<rparr>)]
             in Inr (case plans of [] \<Rightarrow> None | p # _ \<Rightarrow> Some p)))"

section \<open>Running assertions and executors\<close>

text \<open>
  Applying a caller's function changes the system under test; the model also records the
  call, with its arguments and its outcome, at the end of \<open>calls\<close>.
\<close>

definition invoke_test ::
  "('m, 'o, 'tc, 'w) env \<Rightarrow> fn_ref \<Rightarrow> 'tc \<Rightarrow> State \<Rightarrow> ('tc, 'w) World \<Rightarrow>
   Error option \<times> ('tc, 'w) World" where
  "invoke_test env f testContext st w =
     (case call_test env f testContext st (sut w) of
        (r, s') \<Rightarrow> (r, w\<lparr>sut := s', calls := calls w @ [TestCall f testContext st r]\<rparr>))"

definition invoke_exec ::
  "('m, 'o, 'tc, 'w) env \<Rightarrow> fn_ref \<Rightarrow> 'tc \<Rightarrow> EventObject \<Rightarrow> ('tc, 'w) World \<Rightarrow>
   Error option \<times> ('tc, 'w) World" where
  "invoke_exec env f testContext ev w =
     (case call_exec env f testContext ev (sut w) of
        (r, s') \<Rightarrow> (r, w\<lparr>sut := s', calls := calls w @ [ExecCall f testContext ev r]\<rparr>))"

definition invoke_inherited ::
  "('m, 'o, 'tc, 'w) env \<Rightarrow> string \<Rightarrow> 'tc \<Rightarrow> EventObject \<Rightarrow> ('tc, 'w) World \<Rightarrow>
   Error option \<times> ('tc, 'w) World" where
  "invoke_inherited env k testContext ev w =
     (let r = call_inherited env k testContext ev
      in (r, w\<lparr>calls := calls w @ [InheritedCall k testContext ev r]\<rparr>))"

text \<open>
  \<^verbatim>\<open>this.coverage.stateNodes.set(id, (this.coverage.stateNodes.get(id) || 0) + 1)\<close>.
\<close>

definition count_stateNode :: "string \<Rightarrow> 'm TestModel \<Rightarrow> 'm TestModel" where
  "count_stateNode k this =
     this\<lparr>coverage := (coverage this)
       \<lparr>stateNodes :=
          set_entry k
            ((case map_of (stateNodes (coverage this)) k of None \<Rightarrow> 0 | Some n \<Rightarrow> n) + 1)
            (stateNodes (coverage this))\<rparr>\<rparr>"

definition runs_test :: "TestMeta \<Rightarrow> bool" where
  "runs_test stateNodeMeta = (test stateNodeMeta \<noteq> None \<and> skip stateNodeMeta \<noteq> Some True)"

text \<open>
  \<^verbatim>\<open>testState\<close>: the loop over \<^verbatim>\<open>Object.keys(state.meta)\<close>. A rejection of the awaited
  test function leaves the loop; the counter was already incremented.
\<close>

fun testState_loop ::
  "('m, 'o, 'tc, 'w) env \<Rightarrow> (string \<times> TestMeta) list \<Rightarrow> State \<Rightarrow> 'tc \<Rightarrow>
   'm TestModel \<Rightarrow> ('tc, 'w) World \<Rightarrow> Error option \<times> 'm TestModel \<times> ('tc, 'w) World" where
  "testState_loop env [] st testContext this w = (None, this, w)"
| "testState_loop env ((k, stateNodeMeta) # rest) st testContext this w =
     (case test stateNodeMeta of
        None \<Rightarrow> testState_loop env rest st testContext this w
      | Some f \<Rightarrow>
          if skip stateNodeMeta = Some True
          then testState_loop env rest st testContext this w
          else
            (case invoke_test env f testContext st w of
               (Some err, w') \<Rightarrow> (Some err, count_stateNode k this, w')
             | (None, w') \<Rightarrow>
                 testState_loop env rest st testContext (count_stateNode k this) w'))"

definition testState ::
  "('m, 'o, 'tc, 'w) env \<Rightarrow> State \<Rightarrow> 'tc \<Rightarrow> 'm TestModel \<Rightarrow> ('tc, 'w) World \<Rightarrow>
   Error option \<times> 'm TestModel \<times> ('tc, 'w) World" where
  "testState env st testContext this w = testState_loop env (meta st) st testContext this w"

text \<open>\<^verbatim>\<open>getEventExecutor\<close> and \<^verbatim>\<open>executeEvent\<close>; \<^verbatim>\<open>console.warn\<close> appends to the console.\<close>

definition missing_config_warning :: "EventObject \<Rightarrow> string" where
  "missing_config_warning ev =
     ''Missing config for event '' @ dquote @ event_type ev @ dquote @ ''.''"

text \<open>
  \<^verbatim>\<open>this.options.events[event.type]\<close> on the plain object \<^verbatim>\<open>events\<close>: the object's own
  entry, else the property of that name inherited from \<^verbatim>\<open>Object.prototype\<close>. An inherited
  function is truthy and a function, so it is returned as the executor; the inherited
  \<^verbatim>\<open>__proto__\<close> is truthy and no function, and its \<^verbatim>\<open>exec\<close> is undefined.
\<close>

definition getEventExecutor ::
  "'m TestModel \<Rightarrow> EventObject \<Rightarrow> ('tc, 'w) World \<Rightarrow> Executor option \<times> ('tc, 'w) World" where
  "getEventExecutor this ev w =
     (case map_of (events (options this)) (event_type ev) of
        None \<Rightarrow>
          if event_type ev \<in> set Object_prototype_functions
          then (Some (InheritedFunction (event_type ev)), w)
          else if event_type ev = ''__proto__'' then (None, w)
          else (None, w\<lparr>console := console w @ [missing_config_warning ev]\<rparr>)
      | Some (BareExecutor f) \<Rightarrow> (Some (CallerFunction f), w)
      | Some (Config ex cs) \<Rightarrow> (map_option CallerFunction ex, w))"

definition executeEvent ::
  "('m, 'o, 'tc, 'w) env \<Rightarrow> 'm TestModel \<Rightarrow> EventObject \<Rightarrow> 'tc \<Rightarrow> ('tc, 'w) World \<Rightarrow>
   Error option \<times> ('tc, 'w) World" where
  "executeEvent env this ev testContext w =
     (case getEventExecutor this ev w of
        (Some (CallerFunction f), w') \<Rightarrow> invoke_exec env f testContext ev w'
      | (Some (InheritedFunction k), w') \<Rightarrow> invoke_inherited env k testContext ev w'
      | (None, w') \<Rightarrow> (None, w'))"

section \<open>Running a path\<close>

text \<open>The closures of a compiled step.\<close>

definition step_test ::
  "('m, 'o, 'tc, 'w) env \<Rightarrow> TestStep \<Rightarrow> 'tc \<Rightarrow> 'm TestModel \<Rightarrow> ('tc, 'w) World \<Rightarrow>
   Error option \<times> 'm TestModel \<times> ('tc, 'w) World" where
  "step_test env s testContext this w = testState env (step_state s) testContext this w"

definition step_exec ::
  "('m, 'o, 'tc, 'w) env \<Rightarrow> TestStep \<Rightarrow> 'tc \<Rightarrow> 'm TestModel \<Rightarrow> ('tc, 'w) World \<Rightarrow>
   Error option \<times> ('tc, 'w) World" where
  "step_exec env s testContext this w = executeEvent env this (step_event s) testContext w"

text \<open>
  The \<^verbatim>\<open>for\<close> loop inside the outer \<^verbatim>\<open>try\<close> of a path's \<^verbatim>\<open>test\<close>. Each round pushes a
  step result with both errors \<^verbatim>\<open>null\<close>; a failing \<^verbatim>\<open>step.test\<close> or \<^verbatim>\<open>step.exec\<close> writes
  its error into that same object (the last of \<^verbatim>\<open>testPathResult.steps\<close>) and throws. The
  result is the thrown error, if any, with \<^verbatim>\<open>testPathResult\<close> as the loop left it.
\<close>

fun path_steps_loop ::
  "('m, 'o, 'tc, 'w) env \<Rightarrow> TestStep list \<Rightarrow> 'tc \<Rightarrow> TestPathResult \<Rightarrow>
   'm TestModel \<Rightarrow> ('tc, 'w) World \<Rightarrow>
   Error option \<times> TestPathResult \<times> 'm TestModel \<times> ('tc, 'w) World" where
  "path_steps_loop env [] testContext testPathResult this w =
     (None, testPathResult, this, w)"
| "path_steps_loop env (s # rest) testContext testPathResult this w =
     (let testStepResult = \<lparr>step = s, step_state_error = None, step_event_error = None\<rparr>
      in case step_test env s testContext this w of
           (Some err, this1, w1) \<Rightarrow>
             (Some err,
              testPathResult\<lparr>result_steps := result_steps testPathResult @
                 [testStepResult\<lparr>step_state_error := Some err\<rparr>]\<rparr>,
              this1, w1)
         | (None, this1, w1) \<Rightarrow>
             (case step_exec env s testContext this1 w1 of
                (Some err, w2) \<Rightarrow>
                  (Some err,
                   testPathResult\<lparr>result_steps := result_steps testPathResult @
                      [testStepResult\<lparr>step_event_error := Some err\<rparr>]\<rparr>,
                   this1, w2)
              | (None, w2) \<Rightarrow>
                  path_steps_loop env rest testContext
                    (testPathResult\<lparr>result_steps := result_steps testPathResult @
                       [testStepResult]\<rparr>)
                    this1 w2))"

text \<open>
  The body of the outer \<^verbatim>\<open>try\<close>: the loop, then the assertion of the plan's state.
  \<open>Inl (err, testPathResult)\<close> is what the \<^verbatim>\<open>catch\<close> block receives: the thrown error and
  the result recorded so far.
\<close>

definition path_try ::
  "('m, 'o, 'tc, 'w) env \<Rightarrow> State \<Rightarrow> TestPath \<Rightarrow> 'tc \<Rightarrow> 'm TestModel \<Rightarrow> ('tc, 'w) World \<Rightarrow>
   ((Error \<times> TestPathResult) + TestPathResult) \<times> 'm TestModel \<times> ('tc, 'w) World" where
  "path_try env planState path testContext this w =
     (case path_steps_loop env (tpath_steps path) testContext
             \<lparr>result_steps = [], result_state_error = None\<rparr> this w of
        (Some err, testPathResult, this1, w1) \<Rightarrow> (Inl (err, testPathResult), this1, w1)
      | (None, testPathResult, this1, w1) \<Rightarrow>
          (case testState env planState testContext this1 w1 of
             (Some err, this2, w2) \<Rightarrow>
               (Inl (err, testPathResult\<lparr>result_state_error := Some err\<rparr>), this2, w2)
           | (None, this2, w2) \<Rightarrow> (Inr testPathResult, this2, w2)))"

text \<open>
  The trace appended in the \<^verbatim>\<open>catch\<close> block. \<open>trace_steps\<close> is the \<^verbatim>\<open>map\<close> over the
  recorded steps with the variable \<^verbatim>\<open>hasFailed\<close> it assigns; the last line is built after
  the \<^verbatim>\<open>map\<close> has run.
\<close>

definition stateString :: "('m, 'o, 'tc, 'w) env \<Rightarrow> State \<Rightarrow> string" where
  "stateString env st =
     JSON_stringify env (state_value st) @ '' '' @
     (case state_context st of None \<Rightarrow> [] | Some c \<Rightarrow> JSON_stringify env c)"

fun trace_steps ::
  "('m, 'o, 'tc, 'w) env \<Rightarrow> TestStepResult list \<Rightarrow> bool \<Rightarrow> string list \<times> bool" where
  "trace_steps env [] hasFailed = ([], hasFailed)"
| "trace_steps env (s # ss) hasFailed =
     (let stateStr = stateString env (step_state (step s));
          eventString = JSON_stringify env (event_json (step_event (step s)));
          stateResult = tab @ ''State: '' @
            (if hasFailed then slimChalk env ''gray'' stateStr
             else if truthy (step_state_error s) then slimChalk env ''redBright'' stateStr
             else slimChalk env ''greenBright'' stateStr);
          hasFailed1 = (hasFailed \<or> truthy (step_state_error s));
          eventResult = tab @ ''Event: '' @
            (if hasFailed1 then slimChalk env ''gray'' eventString
             else if truthy (step_event_error s) then slimChalk env ''red'' eventString
             else slimChalk env ''green'' eventString);
          hasFailed2 = (hasFailed1 \<or> truthy (step_event_error s))
      in case trace_steps env ss hasFailed2 of
           (ls, hasFailed3) \<Rightarrow> (join nl [stateResult, eventResult] # ls, hasFailed3))"

definition path_trace :: "('m, 'o, 'tc, 'w) env \<Rightarrow> TestPath \<Rightarrow> TestPathResult \<Rightarrow> string" where
  "path_trace env path testPathResult =
     (let targetStateString = stateString env (tpath_state path)
      in case trace_steps env (result_steps testPathResult) False of
           (ls, hasFailed) \<Rightarrow>
             nl @ ''Path:'' @ nl @
             join (nl @ nl)
               (ls @ [tab @ ''State: '' @
                  (if hasFailed then slimChalk env ''gray'' targetStateString
                   else if truthy (result_state_error testPathResult)
                     then slimChalk env ''red'' targetStateString
                   else slimChalk env ''green'' targetStateString)]))"

text \<open>
  The statement \<^verbatim>\<open>err.message += ...; throw err\<close> of the \<^verbatim>\<open>catch\<close> block. On an Error
  object it appends the trace to the message and throws the object. On \<^verbatim>\<open>undefined\<close>
  and \<^verbatim>\<open>null\<close> the read of \<^verbatim>\<open>err.message\<close> throws a TypeError, on any other primitive
  the write does; the wording of these messages is the engine's.
\<close>

definition primitive_message_error :: "primitive \<Rightarrow> Error" where
  "primitive_message_error p =
     (case p of
        Undefined \<Rightarrow> undefined_property ''message''
      | Null \<Rightarrow> Error ''TypeError'' ''Cannot read properties of null (reading message)''
      | _ \<Rightarrow> Error ''TypeError'' ''Cannot create property message on a primitive value'')"

definition append_and_throw ::
  "('m, 'o, 'tc, 'w) env \<Rightarrow> TestPath \<Rightarrow> TestPathResult \<Rightarrow> Error \<Rightarrow> Error" where
  "append_and_throw env path testPathResult err =
     (case err of
        Error n m \<Rightarrow> Error n (m @ path_trace env path testPathResult)
      | NonObject p \<Rightarrow> primitive_message_error p)"

text \<open>
  A path's \<^verbatim>\<open>test\<close>: on a failure the \<^verbatim>\<open>catch\<close> block appends the trace to the error's
  message and throws the error again; otherwise the result is returned.
\<close>

definition path_test ::
  "('m, 'o, 'tc, 'w) env \<Rightarrow> State \<Rightarrow> TestPath \<Rightarrow> 'tc \<Rightarrow> 'm TestModel \<Rightarrow> ('tc, 'w) World \<Rightarrow>
   (Error + TestPathResult) \<times> 'm TestModel \<times> ('tc, 'w) World" where
  "path_test env planState path testContext this w =
     (case path_try env planState path testContext this w of
        (Inl (err, testPathResult), this1, w1) \<Rightarrow>
          (Inl (append_and_throw env path testPathResult err), this1, w1)
      | (Inr testPathResult, this1, w1) \<Rightarrow> (Inr testPathResult, this1, w1))"

section \<open>Running a plan\<close>

fun plan_test_loop ::
  "('m, 'o, 'tc, 'w) env \<Rightarrow> State \<Rightarrow> TestPath list \<Rightarrow> 'tc \<Rightarrow> 'm TestModel \<Rightarrow>
   ('tc, 'w) World \<Rightarrow> Error option \<times> 'm TestModel \<times> ('tc, 'w) World" where
  "plan_test_loop env planState [] testContext this w = (None, this, w)"
| "plan_test_loop env planState (path # paths) testContext this w =
     (case path_test env planState path testContext this w of
        (Inl err, this1, w1) \<Rightarrow> (Some err, this1, w1)
      | (Inr r, this1, w1) \<Rightarrow> plan_test_loop env planState paths testContext this1 w1)"

definition plan_test ::
  "('m, 'o, 'tc, 'w) env \<Rightarrow> TestPlan \<Rightarrow> 'tc \<Rightarrow> 'm TestModel \<Rightarrow> ('tc, 'w) World \<Rightarrow>
   Error option \<times> 'm TestModel \<times> ('tc, 'w) World" where
  "plan_test env plan testContext this w =
     plan_test_loop env (tplan_state plan) (tplan_paths plan) testContext this w"

section \<open>Coverage\<close>

text \<open>
  \<^verbatim>\<open>getCoverage\<close>; the result is the \<^verbatim>\<open>stateNodes\<close> field of the object it returns.
  The second loop runs over the keys of the instance's map and copies \<^verbatim>\<open>get(key)\<close>, which
  is defined for every key of the map. The keys of the result stand in the order in which
  they were first written; JavaScript lists keys that are array indices before the others.
\<close>

definition getCoverage ::
  "('m, 'o, 'tc, 'w) env \<Rightarrow> 'm TestModel \<Rightarrow> CoverageOptions option \<Rightarrow> (string \<times> nat) list" where
  "getCoverage env this opts =
     (let flt = (case opts of None \<Rightarrow> None | Some co \<Rightarrow> coverage_filter co);
          nodes = getStateNodes env (machine this);
          filteredStateNodes = (case flt of Some f \<Rightarrow> filter f nodes | None \<Rightarrow> nodes);
          zeroed = foldl (\<lambda>acc stateNode. set_entry (node_id stateNode) 0 acc) []
                     filteredStateNodes
      in foldl (\<lambda>cov key.
                  case map_of (stateNodes (coverage this)) key of
                    Some n \<Rightarrow> set_entry key n cov
                  | None \<Rightarrow> cov)
           zeroed (map fst (stateNodes (coverage this))))"

definition missing_coverage_message :: "string list \<Rightarrow> string" where
  "missing_coverage_message missingStateNodes =
     ''Missing coverage for state nodes:'' @ nl @
     join nl (map (\<lambda>k. tab @ k) missingStateNodes)"

definition testCoverage ::
  "('m, 'o, 'tc, 'w) env \<Rightarrow> 'm TestModel \<Rightarrow> CoverageOptions option \<Rightarrow> Error + unit" where
  "testCoverage env this opts =
     (let cov = getCoverage env this opts;
          missingStateNodes =
            filter (\<lambda>k. case map_of cov k of None \<Rightarrow> True | Some n \<Rightarrow> n = 0) (map fst cov)
      in if missingStateNodes \<noteq> []
         then Inl (Error ''Error'' (missing_coverage_message missingStateNodes))
         else Inr ())"

section \<open>Instances as objects\<close>

text \<open>
  Instances live in a store: the address of an instance is its index, and \<^verbatim>\<open>new\<close> puts
  the instance at the next free address. A method that changes its instance, run on the
  instance at an address, writes the changed instance back there.
\<close>

type_synonym 'm store = "'m TestModel list"

definition deref :: "'m store \<Rightarrow> nat \<Rightarrow> 'm TestModel option" where
  "deref h a = (if a < length h then Some (h ! a) else None)"

definition store_new :: "'m store \<Rightarrow> 'm TestModel \<Rightarrow> nat \<times> 'm store" where
  "store_new h obj = (length h, h @ [obj])"

definition withEvents_at ::
  "'m store \<Rightarrow> nat \<Rightarrow> (string \<times> EventConfig) list \<Rightarrow> (nat \<times> 'm store) option" where
  "withEvents_at h a eventMap =
     (case deref h a of
        None \<Rightarrow> None
      | Some this \<Rightarrow> Some (store_new h (withEvents this eventMap)))"

definition method_at ::
  "('m TestModel \<Rightarrow> 'x \<Rightarrow> 'r \<times> 'm TestModel \<times> 'x) \<Rightarrow> 'm store \<Rightarrow> nat \<Rightarrow> 'x \<Rightarrow>
   ('r \<times> 'm store \<times> 'x) option" where
  "method_at f h a w =
     (case deref h a of
        None \<Rightarrow> None
      | Some this \<Rightarrow> (case f this w of (r, this', w') \<Rightarrow> Some (r, h[a := this'], w')))"

section \<open>Notions used to state the properties\<close>

text \<open>
  The weight of a plan is the weight of its first path, the one the selection loop reads.
\<close>

definition plan_weight :: "TestPlan \<Rightarrow> nat" where
  "plan_weight plan = (case tplan_paths plan of [] \<Rightarrow> 0 | path0 # _ \<Rightarrow> tpath_weight path0)"

text \<open>
  The matching rule: a state value matches through the machine's own \<^verbatim>\<open>matches\<close>, a
  predicate is applied to the state.
\<close>

fun state_matches :: "('m, 'o, 'tc, 'w) env \<Rightarrow> StateTarget \<Rightarrow> State \<Rightarrow> bool" where
  "state_matches env (TargetValue v) st = matches env st v"
| "state_matches env (TargetPredicate f) st = f st"


text \<open>
  The run of a path in the words of the specification: for every step in turn its
  assertion and then its executor, after the last step the assertion of the plan's state;
  the run stops at the first of these that fails. \<open>first_failure\<close> says which one failed,
  if any: the assertion or the executor of the step with a given index, or the final
  assertion.
\<close>

datatype Failure =
    StateFailure nat Error
  | EventFailure nat Error
  | TerminalFailure Error

fun failure_error :: "Failure \<Rightarrow> Error" where
  "failure_error (StateFailure i e) = e"
| "failure_error (EventFailure i e) = e"
| "failure_error (TerminalFailure e) = e"

fun first_failure ::
  "('m, 'o, 'tc, 'w) env \<Rightarrow> TestStep list \<Rightarrow> State \<Rightarrow> 'tc \<Rightarrow> nat \<Rightarrow> 'm TestModel \<Rightarrow>
   ('tc, 'w) World \<Rightarrow> Failure option \<times> 'm TestModel \<times> ('tc, 'w) World" where
  "first_failure env [] planState testContext i this w =
     (case testState env planState testContext this w of
        (Some e, this1, w1) \<Rightarrow> (Some (TerminalFailure e), this1, w1)
      | (None, this1, w1) \<Rightarrow> (None, this1, w1))"
| "first_failure env (s # ss) planState testContext i this w =
     (case testState env (step_state s) testContext this w of
        (Some e, this1, w1) \<Rightarrow> (Some (StateFailure i e), this1, w1)
      | (None, this1, w1) \<Rightarrow>
          (case executeEvent env this1 (step_event s) testContext w1 of
             (Some e, w2) \<Rightarrow> (Some (EventFailure i e), this1, w2)
           | (None, w2) \<Rightarrow> first_failure env ss planState testContext (Suc i) this1 w2))"

text \<open>
  The result a run records: a step result without errors for every step that passed; for
  a failing step, one more step result with the error in the field of what failed; for a
  failing final assertion, the error in the path's own field.
\<close>

definition passed :: "TestStep \<Rightarrow> TestStepResult" where
  "passed s = \<lparr>step = s, step_state_error = None, step_event_error = None\<rparr>"

definition failed_at ::
  "TestStep list \<Rightarrow> nat \<Rightarrow> Error option \<Rightarrow> Error option \<Rightarrow> TestStepResult list" where
  "failed_at steps i stateError eventError =
     map passed (take i steps) @
     (case drop i steps of
        [] \<Rightarrow> []
      | s # _ \<Rightarrow> [\<lparr>step = s, step_state_error = stateError, step_event_error = eventError\<rparr>])"

fun recorded :: "TestStep list \<Rightarrow> Failure option \<Rightarrow> TestPathResult" where
  "recorded steps None = \<lparr>result_steps = map passed steps, result_state_error = None\<rparr>"
| "recorded steps (Some (StateFailure i e)) =
     \<lparr>result_steps = failed_at steps i (Some e) None, result_state_error = None\<rparr>"
| "recorded steps (Some (EventFailure i e)) =
     \<lparr>result_steps = failed_at steps i None (Some e), result_state_error = None\<rparr>"
| "recorded steps (Some (TerminalFailure e)) =
     \<lparr>result_steps = map passed steps, result_state_error = Some e\<rparr>"

text \<open>
  The trace in the words of the specification. A recorded step gives a \<^verbatim>\<open>State:\<close> line
  and an \<^verbatim>\<open>Event:\<close> line; the state of the path gives a last \<^verbatim>\<open>State:\<close> line. What
  passed before the failure is green, the line of what failed is red, every line after it
  is gray.
\<close>

definition step_lines ::
  "('m, 'o, 'tc, 'w) env \<Rightarrow> string \<Rightarrow> string \<Rightarrow> TestStep \<Rightarrow> string" where
  "step_lines env stateColor eventColor s =
     tab @ ''State: '' @ slimChalk env stateColor (stateString env (step_state s)) @ nl @
     tab @ ''Event: '' @
       slimChalk env eventColor (JSON_stringify env (event_json (step_event s)))"

definition last_line :: "('m, 'o, 'tc, 'w) env \<Rightarrow> string \<Rightarrow> TestPath \<Rightarrow> string" where
  "last_line env color path =
     tab @ ''State: '' @ slimChalk env color (stateString env (tpath_state path))"

definition failed_lines ::
  "('m, 'o, 'tc, 'w) env \<Rightarrow> TestStep list \<Rightarrow> nat \<Rightarrow> string \<Rightarrow> string \<Rightarrow> string list" where
  "failed_lines env steps i stateColor eventColor =
     map (step_lines env ''greenBright'' ''green'') (take i steps) @
     (case drop i steps of
        [] \<Rightarrow> []
      | s # _ \<Rightarrow> [step_lines env stateColor eventColor s])"

fun expected_trace :: "('m, 'o, 'tc, 'w) env \<Rightarrow> TestPath \<Rightarrow> Failure \<Rightarrow> string" where
  "expected_trace env path (StateFailure i e) =
     nl @ ''Path:'' @ nl @
     join (nl @ nl)
       (failed_lines env (tpath_steps path) i ''redBright'' ''gray'' @
        [last_line env ''gray'' path])"
| "expected_trace env path (EventFailure i e) =
     nl @ ''Path:'' @ nl @
     join (nl @ nl)
       (failed_lines env (tpath_steps path) i ''greenBright'' ''red'' @
        [last_line env ''gray'' path])"
| "expected_trace env path (TerminalFailure e) =
     nl @ ''Path:'' @ nl @
     join (nl @ nl)
       (map (step_lines env ''greenBright'' ''green'') (tpath_steps path) @
        [last_line env ''red'' path])"

text \<open>The index of a failing step is the index of a step of the path.\<close>

fun failure_in_range :: "nat \<Rightarrow> Failure option \<Rightarrow> bool" where
  "failure_in_range n (Some (StateFailure i e)) = (i < n)"
| "failure_in_range n (Some (EventFailure i e)) = (i < n)"
| "failure_in_range n (Some (TerminalFailure e)) = True"
| "failure_in_range n None = True"

text \<open>
  The body of the outer \<^verbatim>\<open>try\<close> from a later round of the loop on, and the outcome that
  belongs to a first failure.
\<close>

definition try_from ::
  "('m, 'o, 'tc, 'w) env \<Rightarrow> State \<Rightarrow> TestStep list \<Rightarrow> 'tc \<Rightarrow> TestPathResult \<Rightarrow>
   'm TestModel \<Rightarrow> ('tc, 'w) World \<Rightarrow>
   ((Error \<times> TestPathResult) + TestPathResult) \<times> 'm TestModel \<times> ('tc, 'w) World" where
  "try_from env planState ss testContext res this w =
     (case path_steps_loop env ss testContext res this w of
        (Some err, testPathResult, this1, w1) \<Rightarrow> (Inl (err, testPathResult), this1, w1)
      | (None, testPathResult, this1, w1) \<Rightarrow>
          (case testState env planState testContext this1 w1 of
             (Some err, this2, w2) \<Rightarrow>
               (Inl (err, testPathResult\<lparr>result_state_error := Some err\<rparr>), this2, w2)
           | (None, this2, w2) \<Rightarrow> (Inr testPathResult, this2, w2)))"

definition outcome_of ::
  "TestStep list \<Rightarrow> Failure option \<times> 'a \<times> 'b \<Rightarrow>
   ((Error \<times> TestPathResult) + TestPathResult) \<times> 'a \<times> 'b" where
  "outcome_of steps x =
     (case x of
        (None, this', w') \<Rightarrow> (Inr (recorded steps None), this', w')
      | (Some f, this', w') \<Rightarrow> (Inl (failure_error f, recorded steps (Some f)), this', w'))"

section \<open>The toggle machine of the documentation\<close>

text \<open>
  The two-state machine \<^verbatim>\<open>inactive\<close> \<open>\<rightleftharpoons>\<close> \<^verbatim>\<open>active\<close> on \<^verbatim>\<open>TOGGLE\<close>, with a checkbox
  as the system under test: the executor clicks it, the test of \<^verbatim>\<open>inactive\<close> (function 0)
  expects it unchecked and the test of \<^verbatim>\<open>active\<close> (function 1) expects it checked.
  It instantiates the capabilities of \<open>env\<close> for the concrete runs below.
\<close>

fun digits :: "nat \<Rightarrow> string" where
  "digits n =
     (if n < 10 then [char_of (48 + n)] else digits (n div 10) @ [char_of (48 + n mod 10)])"

text \<open>\<^verbatim>\<open>JSON.stringify\<close> on values whose strings need no escaping.\<close>

fun stringify :: "json \<Rightarrow> string" where
  "stringify JNull = ''null''"
| "stringify (JBool b) = (if b then ''true'' else ''false'')"
| "stringify (JNum n) = (if n < 0 then ''-'' else []) @ digits (nat \<bar>n\<bar>)"
| "stringify (JStr s) = dquote @ s @ dquote"
| "stringify (JArr xs) = ''['' @ join '','' (map stringify xs) @ '']''"
| "stringify (JObj kvs) =
     ''{'' @ join '','' (map (\<lambda>kv. dquote @ fst kv @ dquote @ '':'' @ stringify (snd kv)) kvs) @ ''}''"

definition inactive :: State where
  "inactive =
     \<lparr>state_value = JStr ''inactive'', state_context = None,
      meta = [(''toggle.inactive'', \<lparr>test = Some 0, skip = None, description = None\<rparr>)],
      configuration = [\<lparr>node_id = ''toggle.inactive'', node_type = ''atomic''\<rparr>]\<rparr>"

definition active :: State where
  "active =
     \<lparr>state_value = JStr ''active'', state_context = None,
      meta = [(''toggle.active'', \<lparr>test = Some 1, skip = None, description = None\<rparr>)],
      configuration = [\<lparr>node_id = ''toggle.active'', node_type = ''atomic''\<rparr>]\<rparr>"

definition TOGGLE :: EventObject where
  "TOGGLE = \<lparr>event_type = ''TOGGLE'', props = []\<rparr>"

text \<open>The state nodes below the root, as \<^verbatim>\<open>getStateNodes\<close> lists them.\<close>

definition toggle_nodes :: "StateNode list" where
  "toggle_nodes =
     [\<lparr>node_id = ''toggle.inactive'', node_type = ''atomic''\<rparr>,
      \<lparr>node_id = ''toggle.active'', node_type = ''atomic''\<rparr>]"

definition to_inactive :: StatePath where
  "to_inactive = \<lparr>path_state = inactive, path_steps = [], path_weight = 0\<rparr>"

definition to_active :: StatePath where
  "to_active =
     \<lparr>path_state = active,
      path_steps = [\<lparr>step_state = inactive, step_event = TOGGLE\<rparr>],
      path_weight = 1\<rparr>"

definition toggle_paths :: "EventObject list \<Rightarrow> StatePathsMap" where
  "toggle_paths evs =
     (stringify (JStr ''inactive''), \<lparr>plan_state = inactive, plan_paths = [to_inactive]\<rparr>) #
     (if ''TOGGLE'' \<in> set (map event_type evs)
      then [(stringify (JStr ''active''), \<lparr>plan_state = active, plan_paths = [to_active]\<rparr>)]
      else [])"

fun toggle_replay :: "State \<Rightarrow> Step list \<Rightarrow> EventObject list \<Rightarrow> Error + StatePath" where
  "toggle_replay st done [] =
     Inr \<lparr>path_state = st, path_steps = done, path_weight = length done\<rparr>"
| "toggle_replay st done (e # es) =
     (if event_type e = ''TOGGLE''
      then toggle_replay (if state_value st = JStr ''inactive'' then active else inactive)
             (done @ [\<lparr>step_state = st, step_event = e\<rparr>]) es
      else Inl (Error ''Error'' (''Invalid transition with '' @ event_type e)))"

definition toggle_call_test :: "fn_ref \<Rightarrow> nat \<Rightarrow> State \<Rightarrow> bool \<Rightarrow> Error option \<times> bool" where
  "toggle_call_test f page st checked =
     (if f = 0 \<and> checked then (Some (Error ''AssertionError'' ''expected unchecked''), checked)
      else if f = 1 \<and> \<not> checked then (Some (Error ''AssertionError'' ''expected checked''), checked)
      else if f = 2 then (Some (NonObject (PStr ''boom'')), checked)
      else (None, checked))"

text \<open>
  Of the functions of \<^verbatim>\<open>Object.prototype\<close>, called with \<^verbatim>\<open>this\<close> undefined on a page and
  an event, \<^verbatim>\<open>toString\<close> and \<^verbatim>\<open>constructor\<close> return; the others convert \<^verbatim>\<open>this\<close> to an
  object first and throw.
\<close>

definition object_prototype_call :: "string \<Rightarrow> nat \<Rightarrow> EventObject \<Rightarrow> Error option" where
  "object_prototype_call k page ev =
     (if k = ''toString'' \<or> k = ''constructor'' then None
      else Some (Error ''TypeError'' ''Cannot convert undefined or null to object''))"

definition toggle_call_exec ::
  "fn_ref \<Rightarrow> nat \<Rightarrow> EventObject \<Rightarrow> bool \<Rightarrow> Error option \<times> bool" where
  "toggle_call_exec f page ev checked = (None, \<not> checked)"

definition plain_text :: "string \<Rightarrow> string \<Rightarrow> string" where
  "plain_text color s = s"

definition no_description :: "fn_ref \<Rightarrow> State \<Rightarrow> string" where
  "no_description f st = []"

definition value_matches :: "State \<Rightarrow> json \<Rightarrow> bool" where
  "value_matches st v = (state_value st = v)"

definition toggle_env :: "(unit, unit, nat, bool) env" where
  "toggle_env =
     \<lparr>getStateNodes = (\<lambda>m. toggle_nodes),
      getShortestPaths = (\<lambda>m evs opts. toggle_paths evs),
      getSimplePaths = (\<lambda>m evs opts. toggle_paths evs),
      getPathFromEvents = (\<lambda>m evs. toggle_replay inactive [] evs),
      matches = value_matches,
      JSON_stringify = stringify,
      slimChalk = plain_text,
      call_description = no_description,
      call_test = toggle_call_test,
      call_exec = toggle_call_exec,
      call_inherited = object_prototype_call\<rparr>"

definition toggle_model :: "unit TestModel" where
  "toggle_model =
     withEvents (createModel () None) [(''TOGGLE'', Config (Some 10) None)]"

definition world_unchecked :: "(nat, bool) World" where
  "world_unchecked = \<lparr>sut = False, console = [], calls = []\<rparr>"

definition world_checked :: "(nat, bool) World" where
  "world_checked = \<lparr>sut = True, console = [], calls = []\<rparr>"

text \<open>
  A state whose test (function 2) rejects with the string \<^verbatim>\<open>'boom'\<close>, a path with a
  step in that state, and two events named like functions of \<^verbatim>\<open>Object.prototype\<close>.
\<close>

definition throwing :: State where
  "throwing =
     \<lparr>state_value = JStr ''inactive'', state_context = None,
      meta = [(''toggle.inactive'', \<lparr>test = Some 2, skip = None, description = None\<rparr>)],
      configuration = [\<lparr>node_id = ''toggle.inactive'', node_type = ''atomic''\<rparr>]\<rparr>"

definition from_throwing :: StatePath where
  "from_throwing =
     \<lparr>path_state = active,
      path_steps = [\<lparr>step_state = throwing, step_event = TOGGLE\<rparr>],
      path_weight = 1\<rparr>"

definition TO_STRING :: EventObject where
  "TO_STRING = \<lparr>event_type = ''toString'', props = []\<rparr>"

definition HAS_OWN_PROPERTY :: EventObject where
  "HAS_OWN_PROPERTY = \<lparr>event_type = ''hasOwnProperty'', props = []\<rparr>"

text \<open>An event the toggle configuration does not mention, and a filter on state nodes.\<close>

definition RESET :: EventObject where
  "RESET = \<lparr>event_type = ''RESET'', props = []\<rparr>"


text \<open>
  A filter that keeps the atomic nodes, and the compiled plan that reaches \<^verbatim>\<open>active\<close>.
\<close>

definition is_atomic :: "StateNode \<Rightarrow> bool" where
  "is_atomic sn = (node_type sn = ''atomic'')"

definition active_plan :: TestPlan where
  "active_plan =
     \<lparr>tplan_state = active, tplan_paths = [compile_path toggle_env to_active],
      tplan_description = ''reaches '' @ getDescription toggle_env active\<rparr>"

text \<open>
  A state with three metadata entries: one with a test, one with a test marked
  \<^verbatim>\<open>skip\<close>, one without a test.
\<close>

definition guarded :: State where
  "guarded =
     \<lparr>state_value = JStr ''guarded'', state_context = None,
      meta =
        [(''toggle.inactive'', \<lparr>test = Some 0, skip = None, description = None\<rparr>),
         (''toggle.active'', \<lparr>test = Some 1, skip = Some True, description = None\<rparr>),
         (''toggle'', \<lparr>test = None, skip = None, description = None\<rparr>)],
      configuration = []\<rparr>"

text \<open>
  A plan with two paths to \<^verbatim>\<open>inactive\<close>: there and back, and the empty path.
\<close>

definition round_trip :: StatePath where
  "round_trip =
     \<lparr>path_state = inactive,
      path_steps = [\<lparr>step_state = inactive, step_event = TOGGLE\<rparr>,
                    \<lparr>step_state = active, step_event = TOGGLE\<rparr>],
      path_weight = 2\<rparr>"

definition inactive_plan :: TestPlan where
  "inactive_plan =
     \<lparr>tplan_state = inactive,
      tplan_paths = [compile_path toggle_env round_trip, compile_path toggle_env to_inactive],
      tplan_description = ''reaches '' @ getDescription toggle_env inactive\<rparr>"

text \<open>The model \<^verbatim>\<open>withEvents({})\<close> makes from the toggle model.\<close>

definition empty_model :: "unit TestModel" where
  "empty_model =
     \<lparr>machine = (), options = \<lparr>events = []\<rparr>,
      coverage = \<lparr>stateNodes = [], transitions = []\<rparr>\<rparr>"

section \<open>Theorems\<close>

lemma getEventSamples_forEach_append:
  "getEventSamples_forEach cfg result =
     result @ concat (map (\<lambda>(key, c). samples_of_key key c) cfg)"
proof (induction cfg result rule: getEventSamples_forEach.induct)
  case (3 key ex cs rest result)
  then show ?case by (cases cs) simp_all
qed simp_all

lemma getEventSamples_concat:
  "getEventSamples cfg = concat (map (\<lambda>(key, c). samples_of_key key c) cfg)"
  by (simp add: getEventSamples_def getEventSamples_forEach_append)

text \<open>
  Claim C8. \<^verbatim>\<open>getEventSamples\<close> emits, key by key in the order of the configuration:
  one sample \<^verbatim>\<open>{type: key}\<close> for a bare function; one sample per case, the spread of the
  case over \<^verbatim>\<open>{type: key}\<close>, for a record with \<^verbatim>\<open>cases\<close>; one sample \<^verbatim>\<open>{type: key}\<close>
  for a record without \<^verbatim>\<open>cases\<close>; and nothing for the empty configuration. The function
  is total: it has no error result.
\<close>

theorem getEventSamples_per_key:
  "getEventSamples [] = []
   \<and> getEventSamples cfg = concat (map (\<lambda>(key, c). samples_of_key key c) cfg)
   \<and> getEventSamples (cfg1 @ (key, BareExecutor f) # cfg2) =
       getEventSamples cfg1 @ [\<lparr>event_type = key, props = []\<rparr>] @ getEventSamples cfg2
   \<and> getEventSamples (cfg1 @ (key, Config ex (Some samples)) # cfg2) =
       getEventSamples cfg1 @ map (spread_case key) samples @ getEventSamples cfg2
   \<and> length (map (spread_case key) samples) = length samples
   \<and> props (spread_case key sample) = case_props sample
   \<and> event_type (spread_case key sample) =
       (case case_type sample of None \<Rightarrow> key | Some t \<Rightarrow> t)
   \<and> getEventSamples (cfg1 @ (key, Config ex None) # cfg2) =
       getEventSamples cfg1 @ [\<lparr>event_type = key, props = []\<rparr>] @ getEventSamples cfg2"
  by (simp add: getEventSamples_concat spread_case_def)

lemma filterPathsTo_filter:
  "filterPathsTo env target plans = filter (\<lambda>p. state_matches env target (tplan_state p)) plans"
  by (cases target) (simp_all add: filterPathsTo_def)

lemma shortestPlans_loop_spec:
  assumes "\<forall>p \<in> set plans. tplan_paths p \<noteq> []"
  shows "shortestPlans_loop plans minWeight acc =
     Inr ((if \<forall>q \<in> set plans. minWeight \<le> enat (plan_weight q) then acc else []) @
          filter (\<lambda>p. enat (plan_weight p) \<le> minWeight \<and>
                       (\<forall>q \<in> set plans. plan_weight p \<le> plan_weight q)) plans)"
  using assms
proof (induction plans arbitrary: minWeight acc)
  case Nil
  then show ?case by simp
next
  case (Cons plan plans)
  from Cons.prems obtain path0 rest where paths: "tplan_paths plan = path0 # rest"
    by (cases "tplan_paths plan") auto
  have w: "plan_weight plan = tpath_weight path0"
    by (simp add: plan_weight_def paths)
  have rest: "\<forall>p \<in> set plans. tplan_paths p \<noteq> []"
    using Cons.prems by simp
  note IH = Cons.IH [OF rest]
  let ?cw = "enat (plan_weight plan)"
  let ?P = "\<lambda>m ps p. enat (plan_weight p) \<le> m \<and> (\<forall>q \<in> set ps. plan_weight p \<le> plan_weight q)"
  consider (less) "?cw < minWeight" | (eq) "?cw = minWeight" | (greater) "minWeight < ?cw"
    by (metis linorder_less_linear)
  then show ?case
  proof cases
    case less
    have step: "shortestPlans_loop (plan # plans) minWeight acc =
                shortestPlans_loop plans ?cw [plan]"
      using less by (simp add: paths w)
    have below: "\<And>a. a \<le> plan_weight plan \<Longrightarrow> enat a \<le> minWeight"
      using less by (metis enat_ord_simps(1) less_imp_le order_trans)
    have tail: "filter (?P ?cw plans) plans = filter (?P minWeight (plan # plans)) plans"
      using below by (intro filter_cong) auto
    have ncw: "\<not> minWeight \<le> enat (plan_weight plan)"
      using less by simp
    have cwle: "enat (plan_weight plan) \<le> minWeight"
      using less by simp
    show ?thesis
      unfolding step IH using ncw cwle tail by simp
  next
    case eq
    have step: "shortestPlans_loop (plan # plans) minWeight acc =
                shortestPlans_loop plans minWeight (acc @ [plan])"
      using eq by (simp add: paths w)
    have tail: "filter (?P minWeight plans) plans = filter (?P minWeight (plan # plans)) plans"
      using eq by (intro filter_cong) auto
    have all: "(\<forall>q \<in> set (plan # plans). minWeight \<le> enat (plan_weight q)) =
               (\<forall>q \<in> set plans. minWeight \<le> enat (plan_weight q))"
      using eq by auto
    have mine: "(\<forall>q \<in> set plans. plan_weight plan \<le> plan_weight q) =
                (\<forall>q \<in> set plans. minWeight \<le> enat (plan_weight q))"
      using eq by auto
    show ?thesis
      unfolding step IH all using eq tail mine by simp
  next
    case greater
    have step: "shortestPlans_loop (plan # plans) minWeight acc =
                shortestPlans_loop plans minWeight acc"
      using greater by (auto simp add: paths w Let_def)
    have above: "\<And>a. enat a \<le> minWeight \<Longrightarrow> a \<le> plan_weight plan"
      using greater by (metis enat_ord_simps(1) less_imp_le order_trans)
    have tail: "filter (?P minWeight plans) plans = filter (?P minWeight (plan # plans)) plans"
      using above by (intro filter_cong) auto
    have all: "(\<forall>q \<in> set (plan # plans). minWeight \<le> enat (plan_weight q)) =
               (\<forall>q \<in> set plans. minWeight \<le> enat (plan_weight q))"
      using greater by auto
    have notme: "\<not> enat (plan_weight plan) \<le> minWeight"
      using greater by auto
    show ?thesis
      unfolding step IH all using notme tail by simp
  qed
qed

text \<open>
  Claim C1. \<^verbatim>\<open>getShortestPathPlansTo(target)\<close> keeps, of the shortest-path plans, those
  whose state matches the target, and returns exactly the kept plans whose weight is the
  least weight among the kept plans, all of them, in their order; so the returned plans
  all have the same, minimal weight. Every kept plan has a path to read the weight from
  (a plan holds one or more paths).
\<close>

theorem getShortestPathPlansTo_minimal:
  assumes "\<forall>p \<in> set (filterPathsTo env target (getShortestPathPlans env this None)).
             tplan_paths p \<noteq> []"
  shows "filterPathsTo env target (getShortestPathPlans env this None) =
           filter (\<lambda>p. state_matches env target (tplan_state p))
             (getShortestPathPlans env this None)
         \<and> getShortestPathPlansTo env this target =
           Inr (filter
                  (\<lambda>p. \<forall>q \<in> set (filterPathsTo env target (getShortestPathPlans env this None)).
                         plan_weight p \<le> plan_weight q)
                  (filterPathsTo env target (getShortestPathPlans env this None)))"
proof -
  have "shortestPlans_loop (filterPathsTo env target (getShortestPathPlans env this None)) \<infinity> [] =
        Inr (filter
               (\<lambda>p. \<forall>q \<in> set (filterPathsTo env target (getShortestPathPlans env this None)).
                      plan_weight p \<le> plan_weight q)
               (filterPathsTo env target (getShortestPathPlans env this None)))"
    using shortestPlans_loop_spec [OF assms, of \<infinity> "[]"] by simp
  then show ?thesis
    by (simp add: getShortestPathPlansTo_def filterPathsTo_filter)
qed

text \<open>The toggle model, evaluated.\<close>

lemma toggle_model_eq:
  "toggle_model =
     \<lparr>machine = (), options = \<lparr>events = [(''TOGGLE'', Config (Some 10) None)]\<rparr>,
      coverage = \<lparr>stateNodes = [], transitions = []\<rparr>\<rparr>"
  by (simp add: toggle_model_def withEvents_def createModel_def new_TestModel_def
        defaultOptions_def)

text \<open>The definitions a run on the toggle machine unfolds.\<close>

lemmas toggle_defs =
  toggle_env_def toggle_model_def withEvents_def createModel_def new_TestModel_def
  defaultOptions_def getShortestPathPlans_def getTestPlans_def toggle_paths_def
  getEventSamples_def filterPathsTo_def compile_path_def compile_step_def
  to_active_def to_inactive_def value_matches_def active_def inactive_def TOGGLE_def

text \<open>
  On the toggle machine the target \<^verbatim>\<open>'active'\<close> yields exactly the plan of weight 1.
\<close>

theorem getShortestPathPlansTo_minimal_witness:
  "map_sum message (map (\<lambda>p. (state_value (tplan_state p), plan_weight p)))
     (getShortestPathPlansTo toggle_env toggle_model (TargetValue (JStr ''active''))) =
   Inr [(JStr ''active'', 1)]"
proof -
  have nonempty:
    "\<forall>p \<in> set (filterPathsTo toggle_env (TargetValue (JStr ''active''))
                  (getShortestPathPlans toggle_env toggle_model None)).
       tplan_paths p \<noteq> []"
    by (simp add: toggle_defs)
  show ?thesis
    using getShortestPathPlansTo_minimal [OF nonempty]
    by (simp add: toggle_defs plan_weight_def)
qed

lemma compile_path_fields:
  "tpath_state (compile_path env path) = path_state path"
  "tpath_weight (compile_path env path) = path_weight path"
  "map step_state (tpath_steps (compile_path env path)) = map step_state (path_steps path)"
  "map step_event (tpath_steps (compile_path env path)) = map step_event (path_steps path)"
  by (simp_all add: compile_path_def compile_step_def Let_def o_def)

lemma sublist_mismatch_message:
  "sublist (JSON_stringify env actual) (mismatch_message env actual target)"
  "sublist (JSON_stringify env target) (mismatch_message env actual target)"
proof -
  have first: "mismatch_message env actual target =
      ''The last state '' @ JSON_stringify env actual @
      ('' does not match the target: '' @ JSON_stringify env target)"
    by (simp add: mismatch_message_def)
  show "sublist (JSON_stringify env actual) (mismatch_message env actual target)"
    unfolding first by (rule sublist_appendI)
  have second: "mismatch_message env actual target =
      (''The last state '' @ JSON_stringify env actual @ '' does not match the target: '') @
      JSON_stringify env target"
    by (simp add: mismatch_message_def)
  show "sublist (JSON_stringify env target) (mismatch_message env actual target)"
    unfolding second by (rule sublist_append_leftI)
qed

text \<open>What \<^verbatim>\<open>getPlanFromEvents\<close> does with a path the replay returned.\<close>

lemma getPlanFromEvents_replayed:
  assumes "getPathFromEvents env (machine this) evs = Inr path"
  shows "((\<exists>e. getPlanFromEvents env this evs target = Inl e) \<longleftrightarrow>
            \<not> matches env (path_state path) target)
       \<and> (if matches env (path_state path) target
          then \<exists>plan. getPlanFromEvents env this evs target = Inr (Some plan)
                 \<and> getTestPlans env
                      [(JSON_stringify env (state_value (path_state path)),
                        \<lparr>plan_state = path_state path, plan_paths = [path]\<rparr>)] = [plan]
                 \<and> tplan_state plan = path_state path
                 \<and> tplan_paths plan = [compile_path env path]
                 \<and> tpath_state (compile_path env path) = path_state path
                 \<and> tpath_weight (compile_path env path) = path_weight path
                 \<and> map step_state (tpath_steps (compile_path env path)) =
                     map step_state (path_steps path)
                 \<and> map step_event (tpath_steps (compile_path env path)) =
                     map step_event (path_steps path)
          else \<exists>e. getPlanFromEvents env this evs target = Inl e
                 \<and> message e =
                     ''The last state '' @ JSON_stringify env (state_value (path_state path)) @
                     '' does not match the target: '' @ JSON_stringify env target
                 \<and> sublist (JSON_stringify env (state_value (path_state path))) (message e)
                 \<and> sublist (JSON_stringify env target) (message e))"
proof (cases "matches env (path_state path) target")
  case True
  then show ?thesis
    using assms by (simp add: getPlanFromEvents_def getTestPlans_def compile_path_fields)
next
  case False
  let ?actual = "state_value (path_state path)"
  have res: "getPlanFromEvents env this evs target =
          Inl (Error ''Error'' (mismatch_message env ?actual target))"
    using assms False by (simp add: getPlanFromEvents_def)
  have thrown: "\<exists>e. getPlanFromEvents env this evs target = Inl e
                 \<and> message e =
                     ''The last state '' @ JSON_stringify env ?actual @
                     '' does not match the target: '' @ JSON_stringify env target
                 \<and> sublist (JSON_stringify env ?actual) (message e)
                 \<and> sublist (JSON_stringify env target) (message e)"
  proof (intro exI conjI)
    show "getPlanFromEvents env this evs target =
          Inl (Error ''Error'' (mismatch_message env ?actual target))"
      by (rule res)
    show "message (Error ''Error'' (mismatch_message env ?actual target)) =
          ''The last state '' @ JSON_stringify env ?actual @
          '' does not match the target: '' @ JSON_stringify env target"
      by (simp add: mismatch_message_def)
    show "sublist (JSON_stringify env ?actual)
            (message (Error ''Error'' (mismatch_message env ?actual target)))"
      by (simp add: sublist_mismatch_message(1))
    show "sublist (JSON_stringify env target)
            (message (Error ''Error'' (mismatch_message env ?actual target)))"
      by (simp add: sublist_mismatch_message(2))
  qed
  show ?thesis
  proof (intro conjI)
    show "(\<exists>e. getPlanFromEvents env this evs target = Inl e) \<longleftrightarrow>
            \<not> matches env (path_state path) target"
      using False res by simp
  next
    show "if matches env (path_state path) target
          then \<exists>plan. getPlanFromEvents env this evs target = Inr (Some plan)
                 \<and> getTestPlans env
                      [(JSON_stringify env (state_value (path_state path)),
                        \<lparr>plan_state = path_state path, plan_paths = [path]\<rparr>)] = [plan]
                 \<and> tplan_state plan = path_state path
                 \<and> tplan_paths plan = [compile_path env path]
                 \<and> tpath_state (compile_path env path) = path_state path
                 \<and> tpath_weight (compile_path env path) = path_weight path
                 \<and> map step_state (tpath_steps (compile_path env path)) =
                     map step_state (path_steps path)
                 \<and> map step_event (tpath_steps (compile_path env path)) =
                     map step_event (path_steps path)
          else \<exists>e. getPlanFromEvents env this evs target = Inl e
                 \<and> message e =
                     ''The last state '' @ JSON_stringify env (state_value (path_state path)) @
                     '' does not match the target: '' @ JSON_stringify env target
                 \<and> sublist (JSON_stringify env (state_value (path_state path))) (message e)
                 \<and> sublist (JSON_stringify env target) (message e)"
      using False thrown by (simp only: if_False)
  qed
qed

text \<open>
  Claim C2, as the code has it. When the replay of the events throws (the machine cannot
  replay them), \<^verbatim>\<open>getPlanFromEvents\<close> throws that error, whatever the target. When the
  replay returns a path, \<^verbatim>\<open>getPlanFromEvents\<close> throws exactly when the path's state does
  not match the target; the message of the error then contains the serialised value of the
  state reached and the serialised target. When the state matches, the result is the one
  plan compiled from the map with the single key \<^verbatim>\<open>JSON.stringify(path.state.value)\<close>;
  its only path is the compiled replayed path, with the same state, weight and steps.
\<close>

theorem getPlanFromEvents_target:
  "(\<forall>thrown. getPathFromEvents env (machine this) evs = Inl thrown \<longrightarrow>
       getPlanFromEvents env this evs target = Inl thrown)
   \<and> (\<forall>path. getPathFromEvents env (machine this) evs = Inr path \<longrightarrow>
       ((\<exists>e. getPlanFromEvents env this evs target = Inl e) \<longleftrightarrow>
            \<not> matches env (path_state path) target)
       \<and> (if matches env (path_state path) target
          then \<exists>plan. getPlanFromEvents env this evs target = Inr (Some plan)
                 \<and> getTestPlans env
                      [(JSON_stringify env (state_value (path_state path)),
                        \<lparr>plan_state = path_state path, plan_paths = [path]\<rparr>)] = [plan]
                 \<and> tplan_state plan = path_state path
                 \<and> tplan_paths plan = [compile_path env path]
                 \<and> tpath_state (compile_path env path) = path_state path
                 \<and> tpath_weight (compile_path env path) = path_weight path
                 \<and> map step_state (tpath_steps (compile_path env path)) =
                     map step_state (path_steps path)
                 \<and> map step_event (tpath_steps (compile_path env path)) =
                     map step_event (path_steps path)
          else \<exists>e. getPlanFromEvents env this evs target = Inl e
                 \<and> message e =
                     ''The last state '' @ JSON_stringify env (state_value (path_state path)) @
                     '' does not match the target: '' @ JSON_stringify env target
                 \<and> sublist (JSON_stringify env (state_value (path_state path))) (message e)
                 \<and> sublist (JSON_stringify env target) (message e)))"
proof (intro conjI allI impI)
  fix thrown
  assume "getPathFromEvents env (machine this) evs = Inl thrown"
  then show "getPlanFromEvents env this evs target = Inl thrown"
    by (simp add: getPlanFromEvents_def)
next
  fix path
  assume replayed: "getPathFromEvents env (machine this) evs = Inr path"
  from getPlanFromEvents_replayed [OF replayed, of target, THEN conjunct1]
  show "(\<exists>e. getPlanFromEvents env this evs target = Inl e) \<longleftrightarrow>
            \<not> matches env (path_state path) target" .
next
  fix path
  assume replayed: "getPathFromEvents env (machine this) evs = Inr path"
  from getPlanFromEvents_replayed [OF replayed, of target, THEN conjunct2]
  show "if matches env (path_state path) target
          then \<exists>plan. getPlanFromEvents env this evs target = Inr (Some plan)
                 \<and> getTestPlans env
                      [(JSON_stringify env (state_value (path_state path)),
                        \<lparr>plan_state = path_state path, plan_paths = [path]\<rparr>)] = [plan]
                 \<and> tplan_state plan = path_state path
                 \<and> tplan_paths plan = [compile_path env path]
                 \<and> tpath_state (compile_path env path) = path_state path
                 \<and> tpath_weight (compile_path env path) = path_weight path
                 \<and> map step_state (tpath_steps (compile_path env path)) =
                     map step_state (path_steps path)
                 \<and> map step_event (tpath_steps (compile_path env path)) =
                     map step_event (path_steps path)
          else \<exists>e. getPlanFromEvents env this evs target = Inl e
                 \<and> message e =
                     ''The last state '' @ JSON_stringify env (state_value (path_state path)) @
                     '' does not match the target: '' @ JSON_stringify env target
                 \<and> sublist (JSON_stringify env (state_value (path_state path))) (message e)
                 \<and> sublist (JSON_stringify env target) (message e)" .
qed

text \<open>
  On the toggle machine, after \<^verbatim>\<open>TOGGLE\<close> the target \<^verbatim>\<open>'active'\<close> gives a plan and the
  target \<^verbatim>\<open>'inactive'\<close> throws; the event \<^verbatim>\<open>RESET\<close> cannot be replayed, and the error of
  the replay is the error of \<^verbatim>\<open>getPlanFromEvents\<close>.
\<close>

theorem getPlanFromEvents_target_witness:
  "getPlanFromEvents toggle_env toggle_model [TOGGLE] (JStr ''active'') \<noteq>
     getPlanFromEvents toggle_env toggle_model [TOGGLE] (JStr ''inactive'')
   \<and> (\<exists>e. getPlanFromEvents toggle_env toggle_model [TOGGLE] (JStr ''inactive'') = Inl e)
   \<and> (\<exists>plan. getPlanFromEvents toggle_env toggle_model [TOGGLE] (JStr ''active'') =
               Inr (Some plan))
   \<and> getPlanFromEvents toggle_env toggle_model [RESET] (JStr ''active'') =
       Inl (Error ''Error'' ''Invalid transition with RESET'')"
proof -
  have replay: "getPathFromEvents toggle_env (machine toggle_model) [TOGGLE] = Inr to_active"
    by (simp add: toggle_defs)
  have stuck: "getPathFromEvents toggle_env (machine toggle_model) [RESET] =
      Inl (Error ''Error'' ''Invalid transition with RESET'')"
    by (simp add: toggle_env_def RESET_def)
  have yes: "matches toggle_env (path_state to_active) (JStr ''active'')"
    and no: "\<not> matches toggle_env (path_state to_active) (JStr ''inactive'')"
    by (simp_all add: toggle_defs)
  note replayed = getPlanFromEvents_target [THEN conjunct2, rule_format, OF replay]
  note passed_on = getPlanFromEvents_target [THEN conjunct1, rule_format, OF stuck]
  show ?thesis
    using replayed [of "JStr ''active''"] replayed [of "JStr ''inactive''"] yes no
      passed_on [of "JStr ''active''"]
    by auto
qed

text \<open>
  Claim C2 as stated fails: the toggle machine cannot replay \<^verbatim>\<open>RESET\<close>, so
  \<^verbatim>\<open>getPlanFromEvents\<close> throws the error of the replay although the state the machine is
  in matches the target \<^verbatim>\<open>'inactive'\<close>, and the message of that error does not contain
  the serialised target.
\<close>

theorem getPlanFromEvents_replay_counterexample:
  "matches toggle_env inactive (JStr ''inactive'')
   \<and> getPlanFromEvents toggle_env toggle_model [RESET] (JStr ''inactive'') =
       Inl (Error ''Error'' ''Invalid transition with RESET'')
   \<and> \<not> sublist (stringify (JStr ''inactive'')) ''Invalid transition with RESET''"
proof (intro conjI)
  show "matches toggle_env inactive (JStr ''inactive'')"
    by (simp add: toggle_env_def value_matches_def inactive_def)
  show "getPlanFromEvents toggle_env toggle_model [RESET] (JStr ''inactive'') =
       Inl (Error ''Error'' ''Invalid transition with RESET'')"
    by (simp add: getPlanFromEvents_def toggle_env_def RESET_def)
  show "\<not> sublist (stringify (JStr ''inactive'')) ''Invalid transition with RESET''"
    by (simp add: sublist_Cons_right)
qed

text \<open>
  For an event whose type is neither a key of the configured events nor the name of a
  property of \<^verbatim>\<open>Object.prototype\<close>, \<^verbatim>\<open>getEventExecutor\<close> writes the warning to the console
  and returns no executor, and \<^verbatim>\<open>executeEvent\<close> resolves with nothing changed but the
  console. For a configured record without \<^verbatim>\<open>exec\<close> no executor is returned either, and
  \<^verbatim>\<open>executeEvent\<close> resolves with the world unchanged.
\<close>

lemma executeEvent_without_executor:
  "(map_of (events (options this)) (event_type ev) = None \<and> \<not> inherited (event_type ev) \<longrightarrow>
      getEventExecutor this ev w =
        (None, w\<lparr>console := console w @ [missing_config_warning ev]\<rparr>)
      \<and> executeEvent env this ev testContext w =
        (None, w\<lparr>console := console w @ [missing_config_warning ev]\<rparr>)
      \<and> calls (snd (executeEvent env this ev testContext w)) = calls w
      \<and> sut (snd (executeEvent env this ev testContext w)) = sut w)
   \<and> (map_of (events (options this)) (event_type ev) = Some (Config None cs) \<longrightarrow>
      getEventExecutor this ev w = (None, w)
      \<and> executeEvent env this ev testContext w = (None, w))"
  by (simp add: getEventExecutor_def executeEvent_def inherited_def)

lemma executeEvent_RESET:
  "executeEvent toggle_env toggle_model RESET 7 world_unchecked =
     (None, world_unchecked\<lparr>console := [''Missing config for event '' @ dquote @ ''RESET'' @ dquote @ ''.'']\<rparr>)
   \<and> executeEvent toggle_env (withEvents toggle_model [(''RESET'', Config None None)]) RESET 7
       world_unchecked = (None, world_unchecked)"
proof -
  have absent: "map_of (events (options toggle_model)) (event_type RESET) = None
      \<and> \<not> inherited (event_type RESET)"
    by (simp add: toggle_defs RESET_def inherited_def Object_prototype_functions_def)
  have no_exec:
    "map_of (events (options (withEvents toggle_model [(''RESET'', Config None None)])))
       (event_type RESET) = Some (Config None None)"
    by (simp add: toggle_defs RESET_def)
  show ?thesis
    using executeEvent_without_executor
            [of toggle_model RESET world_unchecked toggle_env 7 None]
          executeEvent_without_executor
            [of "withEvents toggle_model [(''RESET'', Config None None)]" RESET
                world_unchecked toggle_env 7 None]
          absent no_exec
    by (simp add: missing_config_warning_def RESET_def world_unchecked_def)
qed

text \<open>
  Claim C7 at the events \<^verbatim>\<open>{type: 'toString'}\<close> and \<^verbatim>\<open>{type: 'hasOwnProperty'}\<close>, whose
  types the toggle configuration does not mention. The lookup finds the functions that the
  configuration object inherits: \<^verbatim>\<open>getEventExecutor\<close> writes no warning and returns the
  inherited function, and \<^verbatim>\<open>executeEvent\<close> calls it; the call of
  \<^verbatim>\<open>Object.prototype.hasOwnProperty\<close> throws, so \<^verbatim>\<open>executeEvent\<close> rejects.
\<close>

theorem executeEvent_inherited_executor:
  "map_of (events (options toggle_model)) (event_type TO_STRING) = None
   \<and> map_of (events (options toggle_model)) (event_type HAS_OWN_PROPERTY) = None
   \<and> getEventExecutor toggle_model TO_STRING world_unchecked =
       (Some (InheritedFunction ''toString''), world_unchecked)
   \<and> executeEvent toggle_env toggle_model TO_STRING 7 world_unchecked =
       (None, world_unchecked\<lparr>calls := [InheritedCall ''toString'' 7 TO_STRING None]\<rparr>)
   \<and> executeEvent toggle_env toggle_model HAS_OWN_PROPERTY 7 world_unchecked =
       (Some (Error ''TypeError'' ''Cannot convert undefined or null to object''),
        world_unchecked\<lparr>calls :=
          [InheritedCall ''hasOwnProperty'' 7 HAS_OWN_PROPERTY
             (Some (Error ''TypeError'' ''Cannot convert undefined or null to object''))]\<rparr>)"
  by (simp add: toggle_model_eq getEventExecutor_def executeEvent_def invoke_inherited_def
        TO_STRING_def HAS_OWN_PROPERTY_def Object_prototype_functions_def toggle_env_def
        object_prototype_call_def world_unchecked_def Let_def)

lemma map_of_set_entry: "map_of (set_entry k v xs) = (map_of xs)(k \<mapsto> v)"
  by (induction xs) (auto simp: fun_eq_iff)











text \<open>The definitions a run of \<^verbatim>\<open>testState\<close> on the toggle machine unfolds.\<close>

lemmas run_defs =
  testState_def invoke_test_def count_stateNode_def toggle_call_test_def
  world_checked_def world_unchecked_def


lemma sublist_join: "x \<in> set xs \<Longrightarrow> sublist x (join sep xs)"
proof (induction sep xs rule: join.induct)
  case (3 sep y z ys)
  show ?case
  proof (cases "x = y")
    case True
    then show ?thesis by simp
  next
    case False
    with 3 have "sublist x (join sep (z # ys))" by simp
    then obtain ps ss where parts: "join sep (z # ys) = ps @ x @ ss"
      unfolding sublist_def by blast
    have whole: "join sep (y # z # ys) = (y @ sep @ ps) @ x @ ss"
      by (simp add: parts)
    show ?thesis
      unfolding whole by (rule sublist_appendI)
  qed
qed simp_all

lemma missing_filter:
  "filter (\<lambda>k. case map_of cov k of None \<Rightarrow> True | Some n \<Rightarrow> n = (0::nat)) (map fst cov) =
   filter (\<lambda>k. map_of cov k = Some 0) (map fst cov)"
  by (intro filter_cong) (auto simp: map_of_eq_None_iff split: option.splits)

lemma zero_listed:
  "map_of cov k = Some (0::nat) \<Longrightarrow> k \<in> set (filter (\<lambda>k. map_of cov k = Some 0) (map fst cov))"
proof -
  assume z: "map_of cov k = Some 0"
  then have "(k, 0) \<in> set cov" by (rule map_of_SomeD)
  then have "k \<in> set (map fst cov)" by force
  with z show ?thesis by simp
qed

lemma testCoverage_eq:
  "testCoverage env this opts =
     (let missing = filter (\<lambda>k. map_of (getCoverage env this opts) k = Some 0)
                      (map fst (getCoverage env this opts))
      in if missing \<noteq> [] then Inl (Error ''Error'' (missing_coverage_message missing))
         else Inr ())"
  by (simp add: testCoverage_def Let_def missing_filter)

lemma sublist_missing_message:
  "k \<in> set ks \<Longrightarrow> sublist (tab @ k) (missing_coverage_message ks)"
proof -
  assume "k \<in> set ks"
  then have "tab @ k \<in> set (map (\<lambda>k. tab @ k) ks)" by auto
  then have "sublist (tab @ k) (join nl (map (\<lambda>k. tab @ k) ks))" by (rule sublist_join)
  then obtain ps ss where parts: "join nl (map (\<lambda>k. tab @ k) ks) = ps @ (tab @ k) @ ss"
    unfolding sublist_def by blast
  have whole: "missing_coverage_message ks =
      (''Missing coverage for state nodes:'' @ nl @ ps) @ (tab @ k) @ ss"
    unfolding missing_coverage_message_def parts by simp
  show ?thesis
    unfolding whole by (rule sublist_appendI)
qed

text \<open>
  Claim C4. \<^verbatim>\<open>testCoverage\<close> throws exactly when some id of the computed coverage map
  has the count zero. The message of the error is the heading followed by the ids of
  count zero, in the order of the map, and so contains each of them on a line of its own
  (after a tab). When no id has the count zero the call returns normally. The method only
  reads the instance, so it has no instance to return: the counters are as before.
\<close>

theorem testCoverage_throws_iff:
  "((\<exists>e. testCoverage env this opts = Inl e) \<longleftrightarrow>
      (\<exists>k. map_of (getCoverage env this opts) k = Some 0))
   \<and> (\<forall>e. testCoverage env this opts = Inl e \<longrightarrow>
         e = Error ''Error''
               (missing_coverage_message
                  (filter (\<lambda>k. map_of (getCoverage env this opts) k = Some 0)
                     (map fst (getCoverage env this opts))))
         \<and> (\<forall>k. map_of (getCoverage env this opts) k = Some 0 \<longrightarrow>
                sublist (tab @ k) (message e)))
   \<and> ((\<forall>k. map_of (getCoverage env this opts) k \<noteq> Some 0) \<longrightarrow>
         testCoverage env this opts = Inr ())"
proof -
  let ?cov = "getCoverage env this opts"
  let ?missing = "filter (\<lambda>k. map_of ?cov k = Some 0) (map fst ?cov)"
  have nonempty: "?missing \<noteq> [] \<longleftrightarrow> (\<exists>k. map_of ?cov k = Some 0)"
  proof
    assume "?missing \<noteq> []"
    then obtain k where "k \<in> set ?missing" by (meson last_in_set)
    then show "\<exists>k. map_of ?cov k = Some 0" by auto
  next
    assume "\<exists>k. map_of ?cov k = Some 0"
    then obtain k where "map_of ?cov k = Some 0" ..
    then have "k \<in> set ?missing" by (rule zero_listed)
    then show "?missing \<noteq> []" by (metis empty_iff empty_set)
  qed
  have listed: "\<And>k. map_of ?cov k = Some 0 \<Longrightarrow>
                  sublist (tab @ k) (missing_coverage_message ?missing)"
    by (intro sublist_missing_message zero_listed)
  show ?thesis
    unfolding testCoverage_eq Let_def using nonempty listed by auto
qed

text \<open>The definitions a run of a path on the toggle machine unfolds.\<close>

lemmas path_defs =
  plan_test_def path_test_def path_try_def step_test_def step_exec_def executeEvent_def
  getEventExecutor_def invoke_exec_def toggle_call_exec_def

lemma toggle_fresh_coverage:
  "getCoverage toggle_env toggle_model None =
     [(''toggle.inactive'', 0), (''toggle.active'', 0)]"
  by (simp add: getCoverage_def toggle_defs toggle_nodes_def)

lemma toggle_run_active_plan:
  "plan_test toggle_env active_plan 7 toggle_model world_unchecked =
     (None,
      toggle_model\<lparr>coverage :=
        \<lparr>stateNodes = [(''toggle.inactive'', 1), (''toggle.active'', 1)], transitions = []\<rparr>\<rparr>,
      \<lparr>sut = True, console = [],
       calls = [TestCall 0 7 inactive None, ExecCall 10 7 TOGGLE None, TestCall 1 7 active None]\<rparr>)"
  by (simp add: active_plan_def path_defs run_defs toggle_defs)

text \<open>
  A new toggle model misses both nodes; after the plan that reaches \<^verbatim>\<open>active\<close> has
  run, the atomic nodes are covered.
\<close>

theorem testCoverage_throws_iff_witness:
  "testCoverage toggle_env toggle_model None =
     Inl (Error ''Error''
            (missing_coverage_message [''toggle.inactive'', ''toggle.active'']))
   \<and> testCoverage toggle_env
        (fst (snd (plan_test toggle_env active_plan 7 toggle_model world_unchecked)))
        (Some \<lparr>coverage_filter = Some is_atomic\<rparr>) = Inr ()"
proof -
  let ?ran = "fst (snd (plan_test toggle_env active_plan 7 toggle_model world_unchecked))"
  let ?atomic = "Some \<lparr>coverage_filter = Some is_atomic\<rparr>"
  have "map_of (getCoverage toggle_env toggle_model None) ''toggle.inactive'' = Some 0"
    by (simp add: toggle_fresh_coverage)
  then have "\<exists>e. testCoverage toggle_env toggle_model None = Inl e"
    using testCoverage_throws_iff [of toggle_env toggle_model None] by blast
  then have first: "testCoverage toggle_env toggle_model None =
     Inl (Error ''Error''
            (missing_coverage_message [''toggle.inactive'', ''toggle.active'']))"
    using testCoverage_throws_iff [of toggle_env toggle_model None]
    by (auto simp add: toggle_fresh_coverage)
  have "getCoverage toggle_env ?ran ?atomic = [(''toggle.inactive'', 1), (''toggle.active'', 1)]"
    unfolding toggle_run_active_plan
    by (simp add: getCoverage_def is_atomic_def toggle_defs toggle_nodes_def)
  then have "\<forall>k. map_of (getCoverage toggle_env ?ran ?atomic) k \<noteq> Some 0"
    by simp
  then have second: "testCoverage toggle_env ?ran ?atomic = Inr ()"
    using testCoverage_throws_iff [of toggle_env ?ran ?atomic] by blast
  from first second show ?thesis by simp
qed

lemma runs_test_iff: "runs_test m \<longleftrightarrow> (\<exists>f. test m = Some f \<and> skip m \<noteq> Some True)"
  by (auto simp: runs_test_def)

lemma testState_loop_append:
  "testState_loop env (pre @ post) st tc this w =
     (case testState_loop env pre st tc this w of
        (Some e, this1, w1) \<Rightarrow> (Some e, this1, w1)
      | (None, this1, w1) \<Rightarrow> testState_loop env post st tc this1 w1)"
  by (induction pre arbitrary: this w)
     (auto split: option.splits prod.splits)

lemma testState_loop_entry:
  "testState_loop env ((k, m) # post) st tc this w =
     (if runs_test m
      then (case call_test env (the (test m)) tc st (sut w) of
              (r, s') \<Rightarrow>
                (case r of
                   Some e \<Rightarrow>
                     (Some e, count_stateNode k this,
                      w\<lparr>sut := s', calls := calls w @ [TestCall (the (test m)) tc st r]\<rparr>)
                 | None \<Rightarrow>
                     testState_loop env post st tc (count_stateNode k this)
                       (w\<lparr>sut := s', calls := calls w @ [TestCall (the (test m)) tc st r]\<rparr>)))
      else testState_loop env post st tc this w)"
  by (auto simp: runs_test_def invoke_test_def split: option.splits prod.splits)

lemma count_stateNode_lookup:
  "map_of (stateNodes (coverage (count_stateNode k this))) =
     (map_of (stateNodes (coverage this)))
       (k \<mapsto> (case map_of (stateNodes (coverage this)) k of None \<Rightarrow> 0 | Some n \<Rightarrow> n) + 1)"
  by (simp add: count_stateNode_def map_of_set_entry)

lemma count_stateNode_frame:
  "machine (count_stateNode k this) = machine this"
  "options (count_stateNode k this) = options this"
  "transitions (coverage (count_stateNode k this)) = transitions (coverage this)"
  by (simp_all add: count_stateNode_def)

lemma testState_loop_Cons_cases:
  assumes "testState_loop env ((k, m) # entries) st tc this w = (r, this', w')"
  obtains
    (skipped) "\<not> runs_test m"
      "testState_loop env entries st tc this w = (r, this', w')"
  | (rejected) e s1 where "runs_test m"
      "r = Some e" "this' = count_stateNode k this"
      "w' = w\<lparr>sut := s1, calls := calls w @ [TestCall (the (test m)) tc st (Some e)]\<rparr>"
  | (resolved) s1 where "runs_test m"
      "testState_loop env entries st tc (count_stateNode k this)
         (w\<lparr>sut := s1, calls := calls w @ [TestCall (the (test m)) tc st None]\<rparr>) =
       (r, this', w')"
proof (cases "runs_test m")
  case False
  with assms have "testState_loop env entries st tc this w = (r, this', w')"
    by (simp only: testState_loop_entry if_False)
  with False show ?thesis by (rule skipped)
next
  case True
  obtain r1 s1 where call: "call_test env (the (test m)) tc st (sut w) = (r1, s1)"
    by (cases "call_test env (the (test m)) tc st (sut w)")
  show ?thesis
  proof (cases r1)
    case (Some e)
    from assms True call Some
    have "(Some e, count_stateNode k this,
           w\<lparr>sut := s1, calls := calls w @ [TestCall (the (test m)) tc st (Some e)]\<rparr>) =
          (r, this', w')"
      by (simp only: testState_loop_entry if_True prod.case option.case)
    then have "r = Some e" "this' = count_stateNode k this"
      "w' = w\<lparr>sut := s1, calls := calls w @ [TestCall (the (test m)) tc st (Some e)]\<rparr>"
      by auto
    with True show ?thesis by (rule rejected)
  next
    case None
    from assms True call None
    have "testState_loop env entries st tc (count_stateNode k this)
         (w\<lparr>sut := s1, calls := calls w @ [TestCall (the (test m)) tc st None]\<rparr>) =
       (r, this', w')"
      by (simp only: testState_loop_entry if_True prod.case option.case)
    with True show ?thesis by (rule resolved)
  qed
qed

lemma testState_loop_counters:
  "testState_loop env entries st tc this w = (r, this', w') \<Longrightarrow>
   \<forall>m. (k, m) \<in> set entries \<longrightarrow> \<not> runs_test m \<Longrightarrow>
   map_of (stateNodes (coverage this')) k = map_of (stateNodes (coverage this)) k"
proof (induction entries arbitrary: this w)
  case Nil
  then show ?case by simp
next
  case (Cons entry entries)
  obtain k1 m1 where entry: "entry = (k1, m1)" by (cases entry)
  have rest: "\<forall>m. (k, m) \<in> set entries \<longrightarrow> \<not> runs_test m"
    using Cons.prems(2) by simp
  from Cons.prems(1) [unfolded entry] show ?case
  proof (cases rule: testState_loop_Cons_cases)
    case skipped
    from Cons.IH [OF skipped(2) rest] show ?thesis .
  next
    case (rejected e s1)
    have "k1 \<noteq> k" using Cons.prems(2) rejected(1) by (auto simp add: entry)
    then show ?thesis by (simp add: rejected(3) count_stateNode_lookup)
  next
    case (resolved s1)
    have "k1 \<noteq> k" using Cons.prems(2) resolved(1) by (auto simp add: entry)
    then have "map_of (stateNodes (coverage (count_stateNode k1 this))) k =
               map_of (stateNodes (coverage this)) k"
      by (simp add: count_stateNode_lookup)
    with Cons.IH [OF resolved(2) rest] show ?thesis by simp
  qed
qed

lemma testState_loop_calls:
  "testState_loop env entries st tc this w = (r, this', w') \<Longrightarrow>
   \<exists>new. calls w' = calls w @ new
     \<and> (\<forall>c \<in> set new. \<exists>k m r'. (k, m) \<in> set entries \<and> runs_test m
           \<and> c = TestCall (the (test m)) tc st r')"
proof (induction entries arbitrary: this w)
  case Nil
  then show ?case by simp
next
  case (Cons entry entries)
  obtain k1 m1 where entry: "entry = (k1, m1)" by (cases entry)
  from Cons.prems [unfolded entry] show ?case
  proof (cases rule: testState_loop_Cons_cases)
    case skipped
    from Cons.IH [OF skipped(2)] obtain new where
      new: "calls w' = calls w @ new"
      and each: "\<forall>c \<in> set new. \<exists>k m r'. (k, m) \<in> set entries \<and> runs_test m
           \<and> c = TestCall (the (test m)) tc st r'"
      by blast
    from each have "\<forall>c \<in> set new. \<exists>k m r'. (k, m) \<in> set (entry # entries) \<and> runs_test m
           \<and> c = TestCall (the (test m)) tc st r'"
      by (meson list.set_intros(2))
    with new show ?thesis by blast
  next
    case (rejected e s1)
    let ?c = "TestCall (the (test m1)) tc st (Some e)"
    have "calls w' = calls w @ [?c]" by (simp add: rejected(4))
    moreover have "\<forall>c \<in> set [?c]. \<exists>k m r'. (k, m) \<in> set (entry # entries) \<and> runs_test m
           \<and> c = TestCall (the (test m)) tc st r'"
      using rejected(1) by (auto simp add: entry)
    ultimately show ?thesis by blast
  next
    case (resolved s1)
    let ?c = "TestCall (the (test m1)) tc st None"
    from Cons.IH [OF resolved(2)] obtain new where
      new: "calls w' = calls w @ ?c # new"
      and each: "\<forall>c \<in> set new. \<exists>k m r'. (k, m) \<in> set entries \<and> runs_test m
           \<and> c = TestCall (the (test m)) tc st r'"
      by auto
    have "\<forall>c \<in> set (?c # new). \<exists>k m r'. (k, m) \<in> set (entry # entries) \<and> runs_test m
           \<and> c = TestCall (the (test m)) tc st r'"
    proof
      fix c assume "c \<in> set (?c # new)"
      then consider "c = ?c" | "c \<in> set new" by auto
      then show "\<exists>k m r'. (k, m) \<in> set (entry # entries) \<and> runs_test m
           \<and> c = TestCall (the (test m)) tc st r'"
      proof cases
        case 1
        then show ?thesis using resolved(1) by (auto simp add: entry)
      next
        case 2
        with each show ?thesis by (meson list.set_intros(2))
      qed
    qed
    with new show ?thesis by blast
  qed
qed

text \<open>
  Claim C5. \<^verbatim>\<open>testState\<close> goes through the entries of the state's metadata in order.
  Take any entry \<open>(k, m)\<close>, with the entries \<open>pre\<close> before it and \<open>post\<close> after it.
  If a test of \<open>pre\<close> rejected, that rejection is the result and the entry is not reached.
  Otherwise, if the entry has a test function and is not marked \<^verbatim>\<open>skip\<close>, the counter of
  \<open>k\<close> is incremented (to its old value plus one, to 1 if it was absent, no other counter
  changing), then the function is called with the test context and the state; its
  rejection is the result of \<^verbatim>\<open>testState\<close>, and after its resolution the loop goes on with
  \<open>post\<close>. If the entry has no test function or is marked \<^verbatim>\<open>skip\<close>, the loop goes on with
  \<open>post\<close> in the same model and world: no call, no increment. Over the whole run, an id
  none of whose entries is to be run keeps its counter, and every call made is a call of the
  test function of an entry that is to be run, with the test context and the state.
\<close>

theorem testState_entry:
  assumes "meta st = pre @ (k, m) # post"
  shows "testState env st tc this w =
     (case testState_loop env pre st tc this w of
        (Some e, this1, w1) \<Rightarrow> (Some e, this1, w1)
      | (None, this1, w1) \<Rightarrow>
          if runs_test m
          then (case call_test env (the (test m)) tc st (sut w1) of
                  (r, s') \<Rightarrow>
                    (case r of
                       Some e \<Rightarrow>
                         (Some e, count_stateNode k this1,
                          w1\<lparr>sut := s',
                             calls := calls w1 @ [TestCall (the (test m)) tc st r]\<rparr>)
                     | None \<Rightarrow>
                         testState_loop env post st tc (count_stateNode k this1)
                           (w1\<lparr>sut := s',
                               calls := calls w1 @ [TestCall (the (test m)) tc st r]\<rparr>)))
          else testState_loop env post st tc this1 w1)
   \<and> map_of (stateNodes (coverage (count_stateNode k this))) k =
       Some ((case map_of (stateNodes (coverage this)) k of None \<Rightarrow> 0 | Some n \<Rightarrow> n) + 1)
   \<and> (\<forall>k'. k' \<noteq> k \<longrightarrow>
         map_of (stateNodes (coverage (count_stateNode k this))) k' =
         map_of (stateNodes (coverage this)) k')
   \<and> (\<forall>r this' w'. testState env st tc this w = (r, this', w') \<longrightarrow>
         (\<forall>k'. (\<forall>m'. (k', m') \<in> set (meta st) \<longrightarrow> \<not> runs_test m') \<longrightarrow>
            map_of (stateNodes (coverage this')) k' = map_of (stateNodes (coverage this)) k')
         \<and> (\<exists>new. calls w' = calls w @ new
              \<and> (\<forall>c \<in> set new. \<exists>k' m' r'. (k', m') \<in> set (meta st) \<and> runs_test m'
                    \<and> c = TestCall (the (test m')) tc st r')))"
proof (intro conjI)
  show "testState env st tc this w =
     (case testState_loop env pre st tc this w of
        (Some e, this1, w1) \<Rightarrow> (Some e, this1, w1)
      | (None, this1, w1) \<Rightarrow>
          if runs_test m
          then (case call_test env (the (test m)) tc st (sut w1) of
                  (r, s') \<Rightarrow>
                    (case r of
                       Some e \<Rightarrow>
                         (Some e, count_stateNode k this1,
                          w1\<lparr>sut := s',
                             calls := calls w1 @ [TestCall (the (test m)) tc st r]\<rparr>)
                     | None \<Rightarrow>
                         testState_loop env post st tc (count_stateNode k this1)
                           (w1\<lparr>sut := s',
                               calls := calls w1 @ [TestCall (the (test m)) tc st r]\<rparr>)))
          else testState_loop env post st tc this1 w1)"
    unfolding testState_def assms testState_loop_append [of env pre "(k, m) # post"]
      testState_loop_entry [of env k m post]
    by (rule refl)
next
  show "map_of (stateNodes (coverage (count_stateNode k this))) k =
       Some ((case map_of (stateNodes (coverage this)) k of None \<Rightarrow> 0 | Some n \<Rightarrow> n) + 1)"
    by (simp add: count_stateNode_lookup)
next
  show "\<forall>k'. k' \<noteq> k \<longrightarrow>
         map_of (stateNodes (coverage (count_stateNode k this))) k' =
         map_of (stateNodes (coverage this)) k'"
    by (simp add: count_stateNode_lookup)
next
  show "\<forall>r this' w'. testState env st tc this w = (r, this', w') \<longrightarrow>
         (\<forall>k'. (\<forall>m'. (k', m') \<in> set (meta st) \<longrightarrow> \<not> runs_test m') \<longrightarrow>
            map_of (stateNodes (coverage this')) k' = map_of (stateNodes (coverage this)) k')
         \<and> (\<exists>new. calls w' = calls w @ new
              \<and> (\<forall>c \<in> set new. \<exists>k' m' r'. (k', m') \<in> set (meta st) \<and> runs_test m'
                    \<and> c = TestCall (the (test m')) tc st r'))"
  proof (intro allI impI conjI)
    fix r this' w' k'
    assume run: "testState env st tc this w = (r, this', w')"
      and none: "\<forall>m'. (k', m') \<in> set (meta st) \<longrightarrow> \<not> runs_test m'"
    from run have "testState_loop env (meta st) st tc this w = (r, this', w')"
      by (simp only: testState_def)
    from testState_loop_counters [OF this none]
    show "map_of (stateNodes (coverage this')) k' = map_of (stateNodes (coverage this)) k'" .
  next
    fix r this' w'
    assume run: "testState env st tc this w = (r, this', w')"
    then have "testState_loop env (meta st) st tc this w = (r, this', w')"
      by (simp only: testState_def)
    from testState_loop_calls [OF this]
    show "\<exists>new. calls w' = calls w @ new
              \<and> (\<forall>c \<in> set new. \<exists>k' m' r'. (k', m') \<in> set (meta st) \<and> runs_test m'
                    \<and> c = TestCall (the (test m')) tc st r')" .
  qed
qed


lemma toggle_call_test_env: "call_test toggle_env = toggle_call_test"
  by (simp add: toggle_env_def)

lemma guarded_before:
  "testState_loop toggle_env
     [(''toggle.inactive'', \<lparr>test = Some 0, skip = None, description = None\<rparr>)]
     guarded 7 toggle_model world_unchecked =
     (None,
      toggle_model\<lparr>coverage := \<lparr>stateNodes = [(''toggle.inactive'', 1)], transitions = []\<rparr>\<rparr>,
      world_unchecked\<lparr>calls := [TestCall 0 7 guarded None]\<rparr>)"
  by (simp add: invoke_test_def count_stateNode_def toggle_call_test_def toggle_call_test_env
        world_unchecked_def toggle_model_eq)

text \<open>
  The state \<open>guarded\<close>: the entry marked \<^verbatim>\<open>skip\<close> is neither called nor counted.
\<close>

theorem testState_entry_witness:
  "testState toggle_env guarded 7 toggle_model world_unchecked =
     (None,
      toggle_model\<lparr>coverage := \<lparr>stateNodes = [(''toggle.inactive'', 1)], transitions = []\<rparr>\<rparr>,
      world_unchecked\<lparr>calls := [TestCall 0 7 guarded None]\<rparr>)"
proof -
  have split: "meta guarded =
      [(''toggle.inactive'', \<lparr>test = Some 0, skip = None, description = None\<rparr>)] @
      (''toggle.active'', \<lparr>test = Some 1, skip = Some True, description = None\<rparr>) #
      [(''toggle'', \<lparr>test = None, skip = None, description = None\<rparr>)]"
    by (simp add: guarded_def)
  have skipped: "\<not> runs_test \<lparr>test = Some 1, skip = Some True, description = None\<rparr>"
    by (simp add: runs_test_def)
  note entry = testState_entry [OF split, of toggle_env 7 toggle_model world_unchecked,
      THEN conjunct1]
  show ?thesis
    unfolding entry guarded_before using skipped by simp
qed

lemma path_try_from: "path_try env planState path tc this w =
   try_from env planState (tpath_steps path) tc \<lparr>result_steps = [], result_state_error = None\<rparr> this w"
  by (simp add: path_try_def try_from_def)

lemma failed_at_here:
  "failed_at (done @ s # ss) (length done) se ee =
     map passed done @ [\<lparr>step = s, step_state_error = se, step_event_error = ee\<rparr>]"
  by (simp add: failed_at_def)

lemma try_from_first_failure:
  "try_from env planState ss tc \<lparr>result_steps = map passed done, result_state_error = None\<rparr> this w =
   outcome_of (done @ ss) (first_failure env ss planState tc (length done) this w)"
proof (induction ss arbitrary: "done" this w)
  case Nil
  show ?case
    by (cases "testState env planState tc this w")
       (auto simp add: try_from_def outcome_of_def split: option.splits)
next
  case (Cons s ss)
  obtain r1 this1 w1 where a: "testState env (step_state s) tc this w = (r1, this1, w1)"
    by (cases "testState env (step_state s) tc this w")
  show ?case
  proof (cases r1)
    case (Some e)
    with a show ?thesis
      by (simp add: try_from_def outcome_of_def step_test_def failed_at_here passed_def)
  next
    case None
    note r1 = None
    obtain r2 w2 where b: "executeEvent env this1 (step_event s) tc w1 = (r2, w2)"
      by (cases "executeEvent env this1 (step_event s) tc w1")
    show ?thesis
    proof (cases r2)
      case (Some e)
      with a b r1 show ?thesis
        by (simp add: try_from_def outcome_of_def step_test_def step_exec_def failed_at_here
              passed_def)
    next
      case None
      have loop: "path_steps_loop env (s # ss) tc
              \<lparr>result_steps = map passed done, result_state_error = None\<rparr> this w =
            path_steps_loop env ss tc
              \<lparr>result_steps = map passed (done @ [s]), result_state_error = None\<rparr> this1 w2"
        using a b r1 None by (simp add: step_test_def step_exec_def passed_def)
      have ff: "first_failure env (s # ss) planState tc (length done) this w =
            first_failure env ss planState tc (length (done @ [s])) this1 w2"
        using a b r1 None by simp
      have "try_from env planState (s # ss) tc
              \<lparr>result_steps = map passed done, result_state_error = None\<rparr> this w =
            try_from env planState ss tc
              \<lparr>result_steps = map passed (done @ [s]), result_state_error = None\<rparr> this1 w2"
        unfolding try_from_def loop by (rule refl)
      also have "\<dots> = outcome_of ((done @ [s]) @ ss)
                  (first_failure env ss planState tc (length (done @ [s])) this1 w2)"
        by (rule Cons.IH)
      finally show ?thesis
        unfolding ff by simp
    qed
  qed
qed

lemma path_try_outcome:
  "path_try env planState path tc this w =
     outcome_of (tpath_steps path) (first_failure env (tpath_steps path) planState tc 0 this w)"
  using try_from_first_failure [of env planState "tpath_steps path" tc "[]" this w]
  by (simp add: path_try_from)

lemma first_failure_range:
  "first_failure env ss planState tc n this w = (f, this', w') \<Longrightarrow>
   failure_in_range (n + length ss) f"
proof (induction ss arbitrary: n this w)
  case Nil
  then show ?case
    by (cases "testState env planState tc this w") (auto split: option.splits)
next
  case (Cons s ss)
  obtain r1 this1 w1 where a: "testState env (step_state s) tc this w = (r1, this1, w1)"
    by (cases "testState env (step_state s) tc this w")
  show ?case
  proof (cases r1)
    case (Some e)
    with a Cons.prems show ?thesis by auto
  next
    case None
    note r1 = None
    obtain r2 w2 where b: "executeEvent env this1 (step_event s) tc w1 = (r2, w2)"
      by (cases "executeEvent env this1 (step_event s) tc w1")
    show ?thesis
    proof (cases r2)
      case (Some e)
      with a b r1 Cons.prems show ?thesis by auto
    next
      case None
      with a b r1 Cons.prems
      have "first_failure env ss planState tc (Suc n) this1 w2 = (f, this', w')" by simp
      from Cons.IH [OF this] show ?thesis by simp
    qed
  qed
qed

text \<open>The trace the catch block builds is the trace of the specification.\<close>

lemma trace_steps_append:
  "trace_steps env (xs @ ys) hasFailed =
     (case trace_steps env xs hasFailed of
        (ls1, hasFailed1) \<Rightarrow>
          (case trace_steps env ys hasFailed1 of
             (ls2, hasFailed2) \<Rightarrow> (ls1 @ ls2, hasFailed2)))"
proof (induction xs arbitrary: hasFailed)
  case Nil
  show ?case by (cases "trace_steps env ys hasFailed") simp
next
  case (Cons x xs)
  let ?h = "hasFailed \<or> truthy (step_state_error x) \<or> truthy (step_event_error x)"
  obtain ls1 h1 where a: "trace_steps env xs ?h = (ls1, h1)"
    by (cases "trace_steps env xs ?h")
  obtain ls2 h2 where b: "trace_steps env ys h1 = (ls2, h2)"
    by (cases "trace_steps env ys h1")
  have "trace_steps env (xs @ ys) ?h = (ls1 @ ls2, h2)"
    by (simp add: Cons.IH a b)
  then show ?case
    by (simp add: Let_def a b)
qed

lemma trace_steps_passed:
  "trace_steps env (map passed ss) False =
     (map (step_lines env ''greenBright'' ''green'') ss, False)"
  by (induction ss) (simp_all add: passed_def step_lines_def Let_def)

lemma path_trace_expected:
  assumes "failure_in_range (length (tpath_steps path)) (Some f)"
    and "truthy (Some (failure_error f))"
  shows "path_trace env path (recorded (tpath_steps path) (Some f)) = expected_trace env path f"
proof (cases f)
  case (StateFailure i e)
  with assms have i: "i < length (tpath_steps path)" and e: "truthy (Some e)" by simp_all
  from i obtain s rest where here: "drop i (tpath_steps path) = s # rest"
    by (metis Cons_nth_drop_Suc)
  have "trace_steps env (failed_at (tpath_steps path) i (Some e) None) False =
        (failed_lines env (tpath_steps path) i ''redBright'' ''gray'', True)"
    using e
    by (simp add: failed_at_def failed_lines_def here trace_steps_append trace_steps_passed
          step_lines_def Let_def)
  then show ?thesis
    by (simp add: StateFailure path_trace_def last_line_def)
next
  case (EventFailure i e)
  with assms have i: "i < length (tpath_steps path)" and e: "truthy (Some e)" by simp_all
  from i obtain s rest where here: "drop i (tpath_steps path) = s # rest"
    by (metis Cons_nth_drop_Suc)
  have "trace_steps env (failed_at (tpath_steps path) i None (Some e)) False =
        (failed_lines env (tpath_steps path) i ''greenBright'' ''red'', True)"
    using e
    by (simp add: failed_at_def failed_lines_def here trace_steps_append trace_steps_passed
          step_lines_def Let_def)
  then show ?thesis
    by (simp add: EventFailure path_trace_def last_line_def)
next
  case (TerminalFailure e)
  with assms have e: "truthy (Some e)" by simp
  then show ?thesis
    by (simp add: TerminalFailure path_trace_def last_line_def trace_steps_passed)
qed

text \<open>
  A path's \<^verbatim>\<open>test\<close> returns a result exactly when no assertion of a step, no executor of
  a step and not the final assertion of the plan's state rejects, and the result then
  holds one step result without errors per step. When one of them rejects, the first to do
  so decides: the catch block receives what it rejected with and a recorded result in
  which that value stands in the state-error field of the failing step (a step assertion),
  in its event-error field (a step executor) or in the path's own error field (the final
  assertion), every other error field being empty, and no result is returned. When the
  rejection is an Error object, the error thrown to the caller has its name and its
  message followed by the trace of the specification. When the rejection is not an object,
  the catch block's own statement throws a TypeError, and that is what the caller gets.
  The failing step is a step of the path.
\<close>

lemma path_test_outcome:
  "path_try env planState path tc this w =
     (case first_failure env (tpath_steps path) planState tc 0 this w of
        (None, this', w') \<Rightarrow> (Inr (recorded (tpath_steps path) None), this', w')
      | (Some f, this', w') \<Rightarrow>
          (Inl (failure_error f, recorded (tpath_steps path) (Some f)), this', w'))
   \<and> path_test env planState path tc this w =
     (case first_failure env (tpath_steps path) planState tc 0 this w of
        (None, this', w') \<Rightarrow> (Inr (recorded (tpath_steps path) None), this', w')
      | (Some f, this', w') \<Rightarrow>
          (Inl (case failure_error f of
                  Error n m \<Rightarrow> Error n (m @ expected_trace env path f)
                | NonObject p \<Rightarrow> primitive_message_error p),
           this', w'))
   \<and> failure_in_range (length (tpath_steps path))
       (fst (first_failure env (tpath_steps path) planState tc 0 this w))"
proof -
  obtain f this' w' where
    ff: "first_failure env (tpath_steps path) planState tc 0 this w = (f, this', w')"
    by (cases "first_failure env (tpath_steps path) planState tc 0 this w")
  have "path_try env planState path tc this w =
        outcome_of (tpath_steps path) (f, this', w')"
    by (simp add: path_try_outcome ff)
  then have tried: "path_try env planState path tc this w =
     (case f of
        None \<Rightarrow> (Inr (recorded (tpath_steps path) None), this', w')
      | Some g \<Rightarrow> (Inl (failure_error g, recorded (tpath_steps path) (Some g)), this', w'))"
    by (cases f) (simp_all add: outcome_of_def)
  have inrange: "failure_in_range (length (tpath_steps path)) f"
    using first_failure_range [OF ff] by simp
  have thrown: "append_and_throw env path (recorded (tpath_steps path) (Some g)) (failure_error g) =
      (case failure_error g of
         Error n m \<Rightarrow> Error n (m @ expected_trace env path g)
       | NonObject p \<Rightarrow> primitive_message_error p)" if g: "f = Some g" for g
  proof (cases "failure_error g")
    case (Error n m)
    then have "truthy (Some (failure_error g))" by simp
    with inrange g have "path_trace env path (recorded (tpath_steps path) (Some g)) =
                         expected_trace env path g"
      by (intro path_trace_expected) simp_all
    with Error show ?thesis by (simp add: append_and_throw_def)
  next
    case (NonObject p)
    then show ?thesis by (simp add: append_and_throw_def)
  qed
  show ?thesis
  proof (cases f)
    case None
    then show ?thesis
      unfolding path_test_def tried ff by simp
  next
    case (Some g)
    with thrown [OF Some] inrange show ?thesis
      unfolding path_test_def tried ff by simp
  qed
qed

text \<open>
  Claim C6 at a test function that rejects with the string \<^verbatim>\<open>'boom'\<close>. The assertion of
  the first step rejects; the catch block cannot write the message of a string, so the
  caller does not get \<^verbatim>\<open>'boom'\<close> back with a trace: the path's \<^verbatim>\<open>test\<close> rejects with a
  TypeError that carries neither.
\<close>

theorem path_test_primitive_rejection:
  "call_test toggle_env 2 7 throwing False = (Some (NonObject (PStr ''boom'')), False)
   \<and> fst (path_try toggle_env active (compile_path toggle_env from_throwing) 7 toggle_model
            world_unchecked) =
       Inl (NonObject (PStr ''boom''),
            \<lparr>result_steps =
               [\<lparr>step = compile_step toggle_env \<lparr>step_state = throwing, step_event = TOGGLE\<rparr>,
                 step_state_error = Some (NonObject (PStr ''boom'')),
                 step_event_error = None\<rparr>],
             result_state_error = None\<rparr>)
   \<and> fst (path_test toggle_env active (compile_path toggle_env from_throwing) 7 toggle_model
            world_unchecked) =
       Inl (Error ''TypeError'' ''Cannot create property message on a primitive value'')"
  by (simp add: path_test_def path_try_def step_test_def testState_def invoke_test_def
        toggle_call_test_env toggle_call_test_def compile_path_def from_throwing_def
        append_and_throw_def primitive_message_error_def world_unchecked_def
        compile_step_def throwing_def)

lemma plan_test_loop_append:
  "plan_test_loop env planState (pre @ post) tc this w =
     (case plan_test_loop env planState pre tc this w of
        (Some e, this1, w1) \<Rightarrow> (Some e, this1, w1)
      | (None, this1, w1) \<Rightarrow> plan_test_loop env planState post tc this1 w1)"
proof (induction pre arbitrary: this w)
  case Nil
  show ?case by simp
next
  case (Cons p pre)
  obtain r this1 w1 where a: "path_test env planState p tc this w = (r, this1, w1)"
    by (cases "path_test env planState p tc this w")
  show ?case
    by (cases r) (simp_all add: a Cons.IH)
qed

lemma testState_calls_prefix:
  "testState env st tc this w = (r, this', w') \<Longrightarrow> prefix (calls w) (calls w')"
  using testState_loop_calls [of env "meta st" st tc this w r this' w']
  unfolding testState_def by (auto simp add: prefix_def)

lemma executeEvent_calls_prefix:
  "executeEvent env this ev tc w = (r, w') \<Longrightarrow> prefix (calls w) (calls w')"
proof -
  assume run: "executeEvent env this ev tc w = (r, w')"
  obtain x w1 where got: "getEventExecutor this ev w = (x, w1)"
    by (cases "getEventExecutor this ev w")
  then have same: "calls w1 = calls w"
    by (auto simp add: getEventExecutor_def split: option.splits EventConfig.splits if_splits)
  show ?thesis
  proof (cases x)
    case None
    with run got have "w' = w1" by (simp add: executeEvent_def)
    with same show ?thesis by simp
  next
    case (Some executor)
    show ?thesis
    proof (cases executor)
      case (CallerFunction f)
      with run got Some have "invoke_exec env f tc ev w1 = (r, w')"
        by (simp add: executeEvent_def)
      then have "calls w' = calls w1 @ [ExecCall f tc ev r]"
        by (auto simp add: invoke_exec_def split: prod.splits)
      with same show ?thesis by (simp add: prefix_def)
    next
      case (InheritedFunction k)
      with run got Some have "invoke_inherited env k tc ev w1 = (r, w')"
        by (simp add: executeEvent_def)
      then have "calls w' = calls w1 @ [InheritedCall k tc ev r]"
        by (auto simp add: invoke_inherited_def Let_def)
      with same show ?thesis by (simp add: prefix_def)
    qed
  qed
qed

lemma first_failure_calls_prefix:
  "first_failure env ss planState tc n this w = (f, this', w') \<Longrightarrow>
   prefix (calls w) (calls w')"
proof (induction ss arbitrary: n this w)
  case Nil
  obtain r1 this1 w1 where a: "testState env planState tc this w = (r1, this1, w1)"
    by (cases "testState env planState tc this w")
  from testState_calls_prefix [OF a] have "prefix (calls w) (calls w1)" .
  moreover from Nil a have "w' = w1" by (cases r1) auto
  ultimately show ?case by simp
next
  case (Cons s ss)
  obtain r1 this1 w1 where a: "testState env (step_state s) tc this w = (r1, this1, w1)"
    by (cases "testState env (step_state s) tc this w")
  from testState_calls_prefix [OF a] have p1: "prefix (calls w) (calls w1)" .
  show ?case
  proof (cases r1)
    case (Some e)
    with a Cons.prems have "w' = w1" by auto
    with p1 show ?thesis by simp
  next
    case None
    note r1 = None
    obtain r2 w2 where b: "executeEvent env this1 (step_event s) tc w1 = (r2, w2)"
      by (cases "executeEvent env this1 (step_event s) tc w1")
    from executeEvent_calls_prefix [OF b] have p2: "prefix (calls w1) (calls w2)" .
    show ?thesis
    proof (cases r2)
      case (Some e)
      with a b r1 Cons.prems have "w' = w2" by auto
      with p1 p2 show ?thesis by (metis prefix_order.order_trans)
    next
      case None
      with a b r1 Cons.prems
      have "first_failure env ss planState tc (Suc n) this1 w2 = (f, this', w')" by simp
      from Cons.IH [OF this] have "prefix (calls w2) (calls w')" .
      with p1 p2 show ?thesis by (metis prefix_order.order_trans)
    qed
  qed
qed

lemma path_test_state:
  "snd (path_test env planState path tc this w) =
   snd (first_failure env (tpath_steps path) planState tc 0 this w)"
proof -
  obtain f this' w' where
    ff: "first_failure env (tpath_steps path) planState tc 0 this w = (f, this', w')"
    by (cases "first_failure env (tpath_steps path) planState tc 0 this w")
  show ?thesis
    by (cases f) (simp_all add: path_test_def path_try_outcome ff outcome_of_def)
qed

lemma path_test_calls_prefix:
  assumes "path_test env planState path tc this w = (r, this', w')"
  shows "prefix (calls w) (calls w')"
proof -
  obtain f where
    "first_failure env (tpath_steps path) planState tc 0 this w = (f, this', w')"
    using path_test_state [of env planState path tc this w] assms
    by (cases "first_failure env (tpath_steps path) planState tc 0 this w") simp
  then show ?thesis by (rule first_failure_calls_prefix)
qed

lemma plan_test_loop_calls_prefix:
  "plan_test_loop env planState ps tc this w = (r, this', w') \<Longrightarrow>
   prefix (calls w) (calls w')"
proof (induction ps arbitrary: this w)
  case Nil
  then show ?case by simp
next
  case (Cons p ps)
  obtain r1 this1 w1 where a: "path_test env planState p tc this w = (r1, this1, w1)"
    by (cases "path_test env planState p tc this w")
  from path_test_calls_prefix [OF a] have p1: "prefix (calls w) (calls w1)" .
  show ?case
  proof (cases r1)
    case (Inl e)
    with a Cons.prems have "w' = w1" by simp
    with p1 show ?thesis by simp
  next
    case (Inr res)
    with a Cons.prems have "plan_test_loop env planState ps tc this1 w1 = (r, this', w')"
      by simp
    from Cons.IH [OF this] p1 show ?thesis by (metis prefix_order.order_trans)
  qed
qed

text \<open>
  Claim C9, as the code has it. A plan's \<^verbatim>\<open>test\<close> runs the tests of its paths in order,
  one after the other. Take any path of the plan, with the paths \<open>pre\<close> before it and
  \<open>post\<close> after it. If the test of a path of \<open>pre\<close> rejected, that rejection is the
  result of the plan's \<^verbatim>\<open>test\<close> and the path is not run. Otherwise the test of the path
  starts in the model and the world the paths before it left behind; its rejection is the
  result of the plan's \<^verbatim>\<open>test\<close>, and after it has returned its result the paths of
  \<open>post\<close> follow from where it ended. When the plan's \<^verbatim>\<open>test\<close> resolves, every path's
  test has been run and has returned a result, and the calls made up to the start and up
  to the end of each path's test are initial segments of the calls made in the end.
\<close>

theorem plan_test_sequential:
  assumes "tplan_paths plan = pre @ path # post"
  shows "plan_test env plan tc this w =
     (case plan_test_loop env (tplan_state plan) pre tc this w of
        (Some e, this1, w1) \<Rightarrow> (Some e, this1, w1)
      | (None, this1, w1) \<Rightarrow>
          (case path_test env (tplan_state plan) path tc this1 w1 of
             (Inl e, this2, w2) \<Rightarrow> (Some e, this2, w2)
           | (Inr res, this2, w2) \<Rightarrow>
               plan_test_loop env (tplan_state plan) post tc this2 w2))
   \<and> (\<forall>this' w'. plan_test env plan tc this w = (None, this', w') \<longrightarrow>
        (\<exists>this1 w1 res this2 w2.
            plan_test_loop env (tplan_state plan) pre tc this w = (None, this1, w1)
          \<and> path_test env (tplan_state plan) path tc this1 w1 = (Inr res, this2, w2)
          \<and> plan_test_loop env (tplan_state plan) post tc this2 w2 = (None, this', w')
          \<and> prefix (calls w) (calls w1) \<and> prefix (calls w1) (calls w2)
          \<and> prefix (calls w2) (calls w')))"
proof -
  let ?ps = "tplan_state plan"
  have eq: "plan_test env plan tc this w =
     (case plan_test_loop env ?ps pre tc this w of
        (Some e, this1, w1) \<Rightarrow> (Some e, this1, w1)
      | (None, this1, w1) \<Rightarrow>
          (case path_test env ?ps path tc this1 w1 of
             (Inl e, this2, w2) \<Rightarrow> (Some e, this2, w2)
           | (Inr res, this2, w2) \<Rightarrow> plan_test_loop env ?ps post tc this2 w2))"
  proof -
    obtain r1 this1 w1 where a: "plan_test_loop env ?ps pre tc this w = (r1, this1, w1)"
      by (cases "plan_test_loop env ?ps pre tc this w")
    show ?thesis
      unfolding plan_test_def assms plan_test_loop_append [of env ?ps pre "path # post"] a
      by (cases r1) simp_all
  qed
  have all: "\<exists>this1 w1 res this2 w2.
            plan_test_loop env ?ps pre tc this w = (None, this1, w1)
          \<and> path_test env ?ps path tc this1 w1 = (Inr res, this2, w2)
          \<and> plan_test_loop env ?ps post tc this2 w2 = (None, this', w')
          \<and> prefix (calls w) (calls w1) \<and> prefix (calls w1) (calls w2)
          \<and> prefix (calls w2) (calls w')"
    if finished: "plan_test env plan tc this w = (None, this', w')" for this' w'
  proof -
    obtain r1 this1 w1 where a: "plan_test_loop env ?ps pre tc this w = (r1, this1, w1)"
      by (cases "plan_test_loop env ?ps pre tc this w")
    obtain r2 this2 w2 where b: "path_test env ?ps path tc this1 w1 = (r2, this2, w2)"
      by (cases "path_test env ?ps path tc this1 w1")
    have r1: "r1 = None"
      using finished a unfolding eq by (cases r1) simp_all
    obtain res where r2: "r2 = Inr res"
      using finished a b r1 unfolding eq by (cases r2) simp_all
    have c: "plan_test_loop env ?ps post tc this2 w2 = (None, this', w')"
      using finished a b r1 r2 unfolding eq by simp
    note plan_test_loop_calls_prefix [OF a] path_test_calls_prefix [OF b]
      plan_test_loop_calls_prefix [OF c]
    with a b c r1 r2 show ?thesis by blast
  qed
  from eq all show ?thesis by blast
qed

text \<open>
  The plan with two paths, run on an unchecked box: both paths run, the second after the
  first.
\<close>

theorem plan_test_sequential_witness:
  "plan_test toggle_env inactive_plan 7 toggle_model world_unchecked =
     (None,
      toggle_model\<lparr>coverage :=
        \<lparr>stateNodes = [(''toggle.inactive'', 3), (''toggle.active'', 1)], transitions = []\<rparr>\<rparr>,
      \<lparr>sut = False, console = [],
       calls = [TestCall 0 7 inactive None, ExecCall 10 7 TOGGLE None,
                TestCall 1 7 active None, ExecCall 10 7 TOGGLE None,
                TestCall 0 7 inactive None, TestCall 0 7 inactive None]\<rparr>)"
proof -
  have split: "tplan_paths inactive_plan =
      [compile_path toggle_env round_trip] @ compile_path toggle_env to_inactive # []"
    by (simp add: inactive_plan_def)
  note eq = plan_test_sequential [OF split, of toggle_env 7 toggle_model world_unchecked,
      THEN conjunct1]
  show ?thesis
    unfolding eq
    by (simp add: inactive_plan_def round_trip_def path_defs run_defs toggle_defs)
qed

text \<open>
  Claim C9 as stated fails: on a checked box the first assertion of the first path
  rejects, the plan's \<^verbatim>\<open>test\<close> rejects with it, and the second path's test is not run:
  the only call made is that first assertion, and the model and the world are as the first
  path's test left them.
\<close>

theorem plan_test_every_path_counterexample:
  "length (tplan_paths inactive_plan) = 2
   \<and> fst (plan_test toggle_env inactive_plan 7 toggle_model world_checked) \<noteq> None
   \<and> calls (snd (snd (plan_test toggle_env inactive_plan 7 toggle_model world_checked))) =
       [TestCall 0 7 inactive (Some (Error ''AssertionError'' ''expected unchecked''))]
   \<and> snd (plan_test toggle_env inactive_plan 7 toggle_model world_checked) =
       snd (path_test toggle_env inactive (compile_path toggle_env round_trip) 7
              toggle_model world_checked)"
  by (simp add: inactive_plan_def round_trip_def path_defs run_defs toggle_defs)

lemma deref_store_new:
  "deref (snd (store_new h obj)) a = (if a = length h then Some obj else deref h a)"
  by (auto simp add: deref_def store_new_def nth_append)

lemma withEvents_fields:
  "machine (withEvents this eventMap) = machine this"
  "events (options (withEvents this eventMap)) = eventMap"
  "coverage (withEvents this eventMap) = \<lparr>stateNodes = [], transitions = []\<rparr>"
  by (simp_all add: withEvents_def new_TestModel_def defaultOptions_def)

lemma method_at_frame:
  assumes "method_at f h b w = Some (r, h', w')" and "a \<noteq> b"
  shows "deref h' a = deref h a"
proof -
  from assms(1) obtain obj where obj: "deref h b = Some obj"
    by (cases "deref h b") (simp_all add: method_at_def)
  obtain r1 obj1 w1 where run: "f obj w = (r1, obj1, w1)"
    by (cases "f obj w")
  from assms(1) obj run have "h' = h[b := obj1]"
    by (simp add: method_at_def)
  with assms(2) show ?thesis
    by (simp add: deref_def)
qed

text \<open>
  Claim C10. \<^verbatim>\<open>withEvents(eventMap)\<close>, called on the instance at address \<open>a\<close>, makes a
  new instance at an address that was free: its machine is the machine of the original,
  its configured events are exactly \<open>eventMap\<close>, its coverage maps are empty. Every
  instance that existed before, the original with its options and counters among them, is
  as it was. And whatever method is then run on the new instance, in whatever store that
  still holds the original at \<open>a\<close>, the original is afterwards still what it was: what the
  new instance records does not show on the original.
\<close>

theorem withEvents_new_instance:
  assumes "deref h a = Some this"
  shows "withEvents_at h a eventMap = Some (length h, h @ [withEvents this eventMap])
     \<and> length h \<noteq> a
     \<and> deref h (length h) = None
     \<and> (\<forall>c. c \<noteq> length h \<longrightarrow> deref (h @ [withEvents this eventMap]) c = deref h c)
     \<and> deref (h @ [withEvents this eventMap]) a = Some this
     \<and> deref (h @ [withEvents this eventMap]) (length h) =
         Some \<lparr>machine = machine this, options = \<lparr>events = eventMap\<rparr>,
               coverage = \<lparr>stateNodes = [], transitions = []\<rparr>\<rparr>
     \<and> (\<forall>f h1 w r h2 w'.
           deref h1 a = Some this \<and> method_at f h1 (length h) w = Some (r, h2, w') \<longrightarrow>
           deref h2 a = Some this)"
proof -
  let ?b = "length h"
  let ?h' = "h @ [withEvents this eventMap]"
  have at: "withEvents_at h a eventMap = Some (?b, ?h')"
    using assms by (simp add: withEvents_at_def store_new_def)
  have lt: "a < length h"
    using assms by (simp add: deref_def split: if_splits)
  then have ne: "?b \<noteq> a" by simp
  have fresh: "deref h ?b = None" by (simp add: deref_def)
  have others: "\<forall>c. c \<noteq> ?b \<longrightarrow> deref ?h' c = deref h c"
    by (auto simp add: deref_def nth_append)
  have old: "deref ?h' a = Some this"
    using lt assms by (simp add: deref_def nth_append)
  have new: "deref ?h' ?b =
         Some \<lparr>machine = machine this, options = \<lparr>events = eventMap\<rparr>,
               coverage = \<lparr>stateNodes = [], transitions = []\<rparr>\<rparr>"
    by (simp add: deref_def withEvents_def new_TestModel_def defaultOptions_def)
  have frame: "\<forall>f h1 w r h2 w'.
           deref h1 a = Some this \<and> method_at f h1 ?b w = Some (r, h2, w') \<longrightarrow>
           deref h2 a = Some this"
  proof (intro allI impI)
    fix f h1 w r h2 w'
    assume both: "deref h1 a = Some this \<and> method_at f h1 ?b w = Some (r, h2, w')"
    then have "deref h2 a = deref h1 a"
      using method_at_frame [of f h1 ?b w r h2 w' a] ne by simp
    with both show "deref h2 a = Some this" by simp
  qed
  from at ne fresh others old new frame show ?thesis by (intro conjI)
qed

lemma toggle_withEvents_empty: "withEvents toggle_model [] = empty_model"
  by (simp add: withEvents_def new_TestModel_def defaultOptions_def empty_model_def
        toggle_model_eq)

lemma toggle_assert_active:
  "testState toggle_env active 7 empty_model world_checked =
     (None,
      empty_model\<lparr>coverage := \<lparr>stateNodes = [(''toggle.active'', 1)], transitions = []\<rparr>\<rparr>,
      world_checked\<lparr>calls := [TestCall 1 7 active None]\<rparr>)"
  by (simp add: testState_def active_def invoke_test_def count_stateNode_def
        toggle_call_test_def toggle_call_test_env world_checked_def empty_model_def)

text \<open>
  From the toggle model: the new instance is at address 1, and asserting \<^verbatim>\<open>active\<close> on
  it counts there and not on the toggle model.
\<close>

theorem withEvents_new_instance_witness:
  "withEvents_at [toggle_model] 0 [] = Some (1, [toggle_model, empty_model])
   \<and> method_at (testState toggle_env active 7) [toggle_model, empty_model] 1 world_checked =
       Some (None,
             [toggle_model,
              empty_model\<lparr>coverage :=
                \<lparr>stateNodes = [(''toggle.active'', 1)], transitions = []\<rparr>\<rparr>],
             world_checked\<lparr>calls := [TestCall 1 7 active None]\<rparr>)
   \<and> deref [toggle_model,
              empty_model\<lparr>coverage :=
                \<lparr>stateNodes = [(''toggle.active'', 1)], transitions = []\<rparr>\<rparr>] 0 =
       Some toggle_model"
proof -
  have original: "deref [toggle_model] 0 = Some toggle_model"
    by (simp add: deref_def)
  note facts = withEvents_new_instance [OF original, of "[]"]
  have made: "withEvents_at [toggle_model] 0 [] = Some (1, [toggle_model, empty_model])"
    using facts [THEN conjunct1] by (simp add: toggle_withEvents_empty)
  have kept: "deref [toggle_model, empty_model] 0 = Some toggle_model"
    using facts [THEN conjunct2, THEN conjunct2, THEN conjunct2, THEN conjunct2, THEN conjunct1]
    by (simp add: toggle_withEvents_empty)
  have frame: "deref h1 0 = Some toggle_model \<and> method_at f h1 1 w = Some (r, h2, w') \<Longrightarrow>
               deref h2 0 = Some toggle_model" for f :: "unit TestModel \<Rightarrow> (nat, bool) World \<Rightarrow> Error option \<times> unit TestModel \<times> (nat, bool) World" and h1 w r h2 w'
    using facts [THEN conjunct2, THEN conjunct2, THEN conjunct2, THEN conjunct2,
      THEN conjunct2, THEN conjunct2, rule_format, of h1 f w r h2 w']
    by simp
  have at: "method_at (testState toggle_env active 7) [toggle_model, empty_model] 1 world_checked =
       Some (None,
             [toggle_model,
              empty_model\<lparr>coverage :=
                \<lparr>stateNodes = [(''toggle.active'', 1)], transitions = []\<rparr>\<rparr>],
             world_checked\<lparr>calls := [TestCall 1 7 active None]\<rparr>)"
    by (simp add: method_at_def deref_def toggle_assert_active)
  note untouched = frame [OF conjI, OF kept at]
  from made at untouched show ?thesis by (intro conjI)
qed

end
